theory Spec2Isabelle
  imports Complex_Main "HOL-Library.Monad_Syntax" "HOL-Library.Log_Nat"
begin

section \<open>The Pointfoot controller (pointfoot\_controller\_mlp\_history.py)\<close>

text \<open>
  A shallow embedding of \<^verbatim>\<open>PointfootController\<close>. Python floats are idealised as
  \<^typ>\<open>real\<close>; Python and numpy sequences are lists. A computation that raises a Python
  exception (IndexError, KeyError, ZeroDivisionError, ValueError, a failing inference
  call) has the value \<^term>\<open>None\<close>: the control loop dies there. A numpy division by
  zero does not raise but yields inf or nan, which no real number stands for; the model
  returns \<^term>\<open>None\<close> there as well, so that no theorem speaks about such a run.

  The controller's arrays hold their values exactly in this model. In the code the array
  \<^verbatim>\<open>self.actions\<close> is a float32 array once \<^verbatim>\<open>compute_actions\<close> has run, and a value
  stored into it is rounded to binary32. Where this rounding decides a property, the
  store is modelled by \<open>float32_round\<close> and the clamp of one joint by
  \<open>clamp_joint_float32\<close>.
\<close>

subsection \<open>Sequences\<close>

text \<open>\<^verbatim>\<open>xs[i]\<close> and \<^verbatim>\<open>xs[i] = v\<close> for a non-negative index: IndexError out of range.\<close>

definition list_get :: "'a list \<Rightarrow> nat \<Rightarrow> 'a option" where
  "list_get xs i = (if i < length xs then Some (xs ! i) else None)"

definition list_set :: "'a list \<Rightarrow> nat \<Rightarrow> 'a \<Rightarrow> 'a list option" where
  "list_set xs i v = (if i < length xs then Some (xs[i := v]) else None)"

text \<open>\<^verbatim>\<open>dst[i] = src[j]\<close>: the right-hand side is read first.\<close>

definition copy_item :: "'a list \<Rightarrow> nat \<Rightarrow> 'a list \<Rightarrow> nat \<Rightarrow> 'a list option" where
  "copy_item dst i src j = do { v \<leftarrow> list_get src j; list_set dst i v }"

subsection \<open>Data of the SDK: RobotCmd, RobotState, ImuData, SensorJoy\<close>

record robot_cmd =
  cmd_mode :: "real list"
  cmd_q :: "real list"
  cmd_dq :: "real list"
  cmd_tau :: "real list"
  cmd_Kp :: "real list"
  cmd_Kd :: "real list"

record robot_state =
  rs_tau :: "real list"
  rs_q :: "real list"
  rs_dq :: "real list"

record imu_data =
  imu_stamp :: int
  imu_acc :: "real list"
  imu_gyro :: "real list"
  imu_quat :: "real list"

record sensor_joy =
  joy_axes :: "real list"

subsection \<open>Joint remapping\<close>

text \<open>
  \<^verbatim>\<open>align_robot_state\<close>: a deep copy of the raw state, then twelve item assignments
  that read the raw state and write the copy, in the order of the source.
\<close>

definition align_robot_state :: "robot_state \<Rightarrow> robot_state option" where
  "align_robot_state robot_state = do {
     let a = robot_state;
     x \<leftarrow> copy_item (rs_q a) 1 (rs_q robot_state) 3; let a = a\<lparr>rs_q := x\<rparr>;
     x \<leftarrow> copy_item (rs_dq a) 1 (rs_dq robot_state) 3; let a = a\<lparr>rs_dq := x\<rparr>;
     x \<leftarrow> copy_item (rs_tau a) 1 (rs_tau robot_state) 3; let a = a\<lparr>rs_tau := x\<rparr>;
     x \<leftarrow> copy_item (rs_q a) 2 (rs_q robot_state) 1; let a = a\<lparr>rs_q := x\<rparr>;
     x \<leftarrow> copy_item (rs_dq a) 2 (rs_dq robot_state) 1; let a = a\<lparr>rs_dq := x\<rparr>;
     x \<leftarrow> copy_item (rs_tau a) 2 (rs_tau robot_state) 1; let a = a\<lparr>rs_tau := x\<rparr>;
     x \<leftarrow> copy_item (rs_q a) 3 (rs_q robot_state) 4; let a = a\<lparr>rs_q := x\<rparr>;
     x \<leftarrow> copy_item (rs_dq a) 3 (rs_dq robot_state) 4; let a = a\<lparr>rs_dq := x\<rparr>;
     x \<leftarrow> copy_item (rs_tau a) 3 (rs_tau robot_state) 4; let a = a\<lparr>rs_tau := x\<rparr>;
     x \<leftarrow> copy_item (rs_q a) 4 (rs_q robot_state) 2; let a = a\<lparr>rs_q := x\<rparr>;
     x \<leftarrow> copy_item (rs_dq a) 4 (rs_dq robot_state) 2; let a = a\<lparr>rs_dq := x\<rparr>;
     x \<leftarrow> copy_item (rs_tau a) 4 (rs_tau robot_state) 2; let a = a\<lparr>rs_tau := x\<rparr>;
     Some a
   }"

text \<open>\<^verbatim>\<open>set_joint_command_aligned\<close>, on the command it mutates.\<close>

definition set_cmd_q :: "robot_cmd \<Rightarrow> nat \<Rightarrow> real \<Rightarrow> robot_cmd option" where
  "set_cmd_q cmd i position = do { x \<leftarrow> list_set (cmd_q cmd) i position; Some (cmd\<lparr>cmd_q := x\<rparr>) }"

definition set_joint_command_aligned :: "robot_cmd \<Rightarrow> nat \<Rightarrow> real \<Rightarrow> robot_cmd option" where
  "set_joint_command_aligned cmd joint_index position =
     (if joint_index = 2 then set_cmd_q cmd 1 position
      else if joint_index = 4 then set_cmd_q cmd 2 position
      else if joint_index = 1 then set_cmd_q cmd 3 position
      else if joint_index = 3 then set_cmd_q cmd 4 position
      else set_cmd_q cmd joint_index position)"

text \<open>
  The two index tables read off the code. \<open>toPhysical\<close> is the slot of the command
  that \<^verbatim>\<open>set_joint_command_aligned\<close> writes for a logical joint; \<open>toLogical\<close> is the
  aligned index at which \<^verbatim>\<open>align_robot_state\<close> stores a raw entry.
\<close>

definition toPhysical :: "nat \<Rightarrow> nat" where
  "toPhysical i = (if i = 2 then 1 else if i = 4 then 2 else if i = 1 then 3 else if i = 3 then 4 else i)"

definition toLogical :: "nat \<Rightarrow> nat" where
  "toLogical p = (if p = 3 then 1 else if p = 1 then 2 else if p = 4 then 3 else if p = 2 then 4 else p)"

text \<open>The outbound table in the words of the specification: 1\<rightarrow>3, 2\<rightarrow>4, 3\<rightarrow>1, 4\<rightarrow>2.\<close>

definition spec_outbound :: "nat \<Rightarrow> nat" where
  "spec_outbound i = (if i = 1 then 3 else if i = 2 then 4 else if i = 3 then 1 else if i = 4 then 2 else i)"


subsection \<open>Scalars and arrays\<close>

text \<open>
  Python's \<^verbatim>\<open>/\<close> and \<^verbatim>\<open>%\<close> on scalars raise ZeroDivisionError. numpy's
  \<^verbatim>\<open>/\<close> on a float64 yields inf or nan instead, values the model does not have.
\<close>

definition py_div :: "real \<Rightarrow> real \<Rightarrow> real option" where
  "py_div x y = (if y = 0 then None else Some (x / y))"

definition py_mod :: "int \<Rightarrow> int \<Rightarrow> int option" where
  "py_mod a b = (if b = 0 then None else Some (a mod b))"

definition np_div :: "real \<Rightarrow> real \<Rightarrow> real option" where
  "np_div x y = (if y = 0 then None else Some (x / y))"

text \<open>\<^verbatim>\<open>np.clip(a, lo, hi)\<close> is \<^verbatim>\<open>minimum(hi, maximum(a, lo))\<close>, elementwise.\<close>

definition np_clip :: "real list \<Rightarrow> real \<Rightarrow> real \<Rightarrow> real list" where
  "np_clip xs lo hi = map (\<lambda>x. min hi (max x lo)) xs"

text \<open>\<^verbatim>\<open>a - b\<close> on one-dimensional arrays, with numpy's broadcasting; ValueError otherwise.\<close>

definition np_sub :: "real list \<Rightarrow> real list \<Rightarrow> real list option" where
  "np_sub xs ys =
     (if length xs = length ys then Some (map2 (\<lambda>x y. x - y) xs ys)
      else if length ys = 1 then Some (map (\<lambda>x. x - hd ys) xs)
      else if length xs = 1 then Some (map (\<lambda>y. hd xs - y) ys)
      else None)"

definition np_scale :: "real list \<Rightarrow> real \<Rightarrow> real list" where
  "np_scale xs k = map (\<lambda>x. x * k) xs"

text \<open>\<^verbatim>\<open>np.dot(np.diag([a, b, c]), v)\<close>: ValueError unless \<open>v\<close> has three entries.\<close>

definition diag3_dot :: "real \<Rightarrow> real \<Rightarrow> real \<Rightarrow> real list \<Rightarrow> real list option" where
  "diag3_dot a b c v = (case v of [x, y, z] \<Rightarrow> Some [a * x, b * y, c * z] | _ \<Rightarrow> None)"

text \<open>
  \<^verbatim>\<open>np.array(queue).flatten()\<close>: the rows one after the other; rows of different
  lengths are a ValueError.
\<close>

definition np_flatten :: "real list list \<Rightarrow> real list option" where
  "np_flatten rows = (if list_all (\<lambda>r. length r = length (hd rows)) rows then Some (concat rows) else None)"

text \<open>\<^verbatim>\<open>deque(maxlen=n).append(x)\<close>: append on the right, then drop the oldest when over capacity.\<close>

definition deque_append :: "nat \<Rightarrow> 'a list \<Rightarrow> 'a \<Rightarrow> 'a list" where
  "deque_append maxlen d x = (let d' = d @ [x] in if maxlen < length d' then tl d' else d')"

subsection \<open>Configuration and collaborators\<close>

datatype mode = STAND | WALK

text \<open>The fields of \<^verbatim>\<open>params_lab_mlp.yaml\<close> that \<^verbatim>\<open>load_config\<close> reads.\<close>

record config =
  joint_names :: "string list"
  default_joint_angle :: "string \<rightharpoonup> real"
  stand_duration :: real
  stiffness :: real
  damping :: real
  decimation :: int
  action_scale_pos :: real
  user_torque_limit :: real
  clip_actions :: real
  clip_observations :: real
  obs_scale_ang_vel :: real
  obs_scale_dof_pos :: real
  obs_scale_dof_vel :: real
  actions_size :: nat
  observations_history_length :: nat
  latent_size :: nat
  observations_size :: nat
  imu_orientation_offset :: "real list"
  lin_vel_x :: real
  lin_vel_y :: real
  ang_vel_yaw :: real
  loop_frequency :: real

text \<open>
  Libraries outside the repository, taken as parameters: the two onnxruntime sessions
  (\<open>None\<close> when the run raises), scipy's rotations, where
  \<open>quat_inverse_apply quat v\<close> is
  \<^verbatim>\<open>np.dot(R.from_euler('zyx', R.from_quat(quat).as_euler('zyx')).inv().as_matrix(), v)\<close> and
  \<open>euler_apply offset v\<close> is \<^verbatim>\<open>np.dot(R.from_euler('zyx', offset).as_matrix(), v)\<close>,
  and torch's \<^verbatim>\<open>pi\<close>, \<^verbatim>\<open>sin\<close> and \<^verbatim>\<open>cos\<close> on float32.
\<close>

record ext =
  encoder_run :: "real list \<Rightarrow> real list option"
  policy_run :: "real list \<Rightarrow> real list option"
  quat_inverse_apply :: "real list \<Rightarrow> real list \<Rightarrow> real list option"
  euler_apply :: "real list \<Rightarrow> real list \<Rightarrow> real list option"
  torch_pi :: real
  torch_sin :: "real \<Rightarrow> real"
  torch_cos :: "real \<Rightarrow> real"

subsection \<open>The controller's state\<close>

record controller =
  cfg :: config
  robot_cmd :: robot_cmd
  robot_state :: robot_state
  robot_state_tmp :: robot_state
  imu_data :: imu_data
  imu_data_tmp :: imu_data
  gait_command :: "real list"
  base_ang_vel_queue :: "real list list"
  projected_gravity_queue :: "real list list"
  joint_positions_queue :: "real list list"
  joint_velocities_queue :: "real list list"
  actions_queue :: "real list list"
  scaled_commands_queue :: "real list list"
  gait_phase_queue :: "real list list"
  gait_command_queue :: "real list list"
  actions :: "real list"
  observations :: "real list"
  last_actions :: "real list"
  commands :: "real list"
  loop_count :: int
  stand_percent :: real
  init_joint_angles :: "real list"
  default_joint_angles :: "real list"
  mode :: mode

text \<open>The loop of \<^verbatim>\<open>load_config\<close> that looks every joint name up: KeyError on a missing name.\<close>

fun load_init_joint_angles :: "(string \<rightharpoonup> real) \<Rightarrow> string list \<Rightarrow> real list option" where
  "load_init_joint_angles init_state [] = Some []"
| "load_init_joint_angles init_state (n # ns) = do {
     a \<leftarrow> init_state n;
     as \<leftarrow> load_init_joint_angles init_state ns;
     Some (a # as)
   }"

text \<open>
  \<^verbatim>\<open>__init__\<close> with \<^verbatim>\<open>load_config\<close>. \<^verbatim>\<open>default_joint_angles\<close> does not exist
  before \<^verbatim>\<open>run\<close>; it is empty here, so that reading it fails as the missing attribute does.
\<close>

definition init_controller :: "config \<Rightarrow> controller option" where
  "init_controller c = do {
     angles \<leftarrow> load_init_joint_angles (default_joint_angle c) (joint_names c);
     let joint_num = length (joint_names c);
     let zeros = replicate joint_num 0;
     let st = \<lparr>rs_tau = zeros, rs_q = zeros, rs_dq = zeros\<rparr>;
     let imu = \<lparr>imu_stamp = 0, imu_acc = [0, 0, 0], imu_gyro = [0, 0, 0], imu_quat = [0, 0, 0, 1]\<rparr>;
     Some \<lparr>cfg = c,
       robot_cmd = \<lparr>cmd_mode = zeros, cmd_q = zeros, cmd_dq = zeros, cmd_tau = zeros,
         cmd_Kp = replicate joint_num (stiffness c), cmd_Kd = replicate joint_num (damping c)\<rparr>,
       robot_state = st, robot_state_tmp = st, imu_data = imu, imu_data_tmp = imu,
       gait_command = [2, 1 / 2, 1 / 2],
       base_ang_vel_queue = [], projected_gravity_queue = [], joint_positions_queue = [],
       joint_velocities_queue = [], actions_queue = [], scaled_commands_queue = [],
       gait_phase_queue = [], gait_command_queue = [],
       actions = replicate (actions_size c) 0,
       observations = replicate (observations_size c * observations_history_length c + latent_size c) 0,
       last_actions = replicate (actions_size c) 0,
       commands = [0, 0, 0], loop_count = 0, stand_percent = 0,
       init_joint_angles = angles, default_joint_angles = [], mode = STAND\<rparr>
   }"

text \<open>The statements of \<^verbatim>\<open>run\<close> before its loop.\<close>

definition run_init :: "controller \<Rightarrow> controller option" where
  "run_init s = do {
     let s = s\<lparr>default_joint_angles := replicate (length (joint_names (cfg s))) 0\<rparr>;
     inc \<leftarrow> py_div 1 (stand_duration (cfg s) * loop_frequency (cfg s));
     let s = s\<lparr>stand_percent := stand_percent s + inc\<rparr>;
     Some (s\<lparr>mode := STAND, loop_count := 0\<rparr>)
   }"


subsection \<open>STAND mode\<close>

text \<open>The body of the \<^verbatim>\<open>for j in range(len(self.joint_names))\<close> loop, over the indices left.\<close>

fun stand_joints :: "controller \<Rightarrow> nat list \<Rightarrow> controller option" where
  "stand_joints s [] = Some s"
| "stand_joints s (j # js) = do {
     d \<leftarrow> list_get (default_joint_angles s) j;
     name \<leftarrow> list_get (joint_names (cfg s)) j;
     a \<leftarrow> default_joint_angle (cfg s) name;
     let pos_des = d * (1 - stand_percent s) + a * stand_percent s;
     cmd \<leftarrow> set_joint_command_aligned (robot_cmd s) j pos_des;
     stand_joints (s\<lparr>robot_cmd := cmd\<rparr>) js
   }"

definition handle_stand_mode :: "controller \<Rightarrow> controller option" where
  "handle_stand_mode s =
     (if stand_percent s < 1 then do {
        s \<leftarrow> stand_joints s [0..<length (joint_names (cfg s))];
        inc \<leftarrow> py_div 1 (stand_duration (cfg s) * loop_frequency (cfg s));
        Some (s\<lparr>stand_percent := stand_percent s + inc\<rparr>)
      } else Some (s\<lparr>mode := WALK\<rparr>))"

subsection \<open>The safety clamp of WALK mode\<close>

definition action_min :: "config \<Rightarrow> real \<Rightarrow> real \<Rightarrow> real \<Rightarrow> real option" where
  "action_min c joint_pos_i init_angle_i joint_vel_i = do {
     x \<leftarrow> np_div (damping c * joint_vel_i - user_torque_limit c) (stiffness c);
     Some (joint_pos_i - init_angle_i + x)
   }"

definition action_max :: "config \<Rightarrow> real \<Rightarrow> real \<Rightarrow> real \<Rightarrow> real option" where
  "action_max c joint_pos_i init_angle_i joint_vel_i = do {
     x \<leftarrow> np_div (damping c * joint_vel_i + user_torque_limit c) (stiffness c);
     Some (joint_pos_i - init_angle_i + x)
   }"

text \<open>\<^verbatim>\<open>max(action_min / scale, min(action_max / scale, a))\<close>.\<close>

definition clip_action :: "config \<Rightarrow> real \<Rightarrow> real \<Rightarrow> real \<Rightarrow> real option" where
  "clip_action c lo hi a = do {
     l \<leftarrow> np_div lo (action_scale_pos c);
     h \<leftarrow> np_div hi (action_scale_pos c);
     Some (max l (min h a))
   }"

text \<open>
  The body of the \<^verbatim>\<open>for i in range(len(joint_pos))\<close> loop, over the indices left.
  The store \<^verbatim>\<open>self.actions[i] = ...\<close> keeps the value as it is: the array holds reals.
\<close>

fun walk_joints :: "controller \<Rightarrow> real list \<Rightarrow> real list \<Rightarrow> nat list \<Rightarrow> controller option" where
  "walk_joints s joint_pos joint_vel [] = Some s"
| "walk_joints s joint_pos joint_vel (i # js) = do {
     p \<leftarrow> list_get joint_pos i;
     q0 \<leftarrow> list_get (init_joint_angles s) i;
     v \<leftarrow> list_get joint_vel i;
     lo \<leftarrow> action_min (cfg s) p q0 v;
     hi \<leftarrow> action_max (cfg s) p q0 v;
     a \<leftarrow> list_get (actions s) i;
     a' \<leftarrow> clip_action (cfg s) lo hi a;
     acts \<leftarrow> list_set (actions s) i a';
     let pos_des = a' * action_scale_pos (cfg s) + q0;
     cmd \<leftarrow> set_joint_command_aligned (robot_cmd s) i pos_des;
     last \<leftarrow> list_set (last_actions s) i a';
     walk_joints (s\<lparr>actions := acts, robot_cmd := cmd, last_actions := last\<rparr>) joint_pos joint_vel js
   }"

subsection \<open>The float32 store of the actions\<close>

text \<open>
  Rounding to the nearest binary32 number, ties to even: 24 bits of significand, the
  exponent of the smallest normal number below which the spacing stays \<open>2 powi (- 149)\<close>,
  and no value (inf in numpy) from \<open>2 ^ 128\<close> on. \<open>binary_exponent x\<close> is the integer part
  of the binary logarithm of \<open>\<bar>x\<bar>\<close>.
\<close>

definition round_half_even :: "real \<Rightarrow> int" where
  "round_half_even y =
     (let f = \<lfloor>y\<rfloor>; d = y - of_int f
      in if d < 1 / 2 then f else if 1 / 2 < d then f + 1 else if even f then f else f + 1)"

definition binary_exponent :: "real \<Rightarrow> int" where
  "binary_exponent x = (if 1 \<le> \<bar>x\<bar> then bitlen \<lfloor>\<bar>x\<bar>\<rfloor> - 1 else - bitlen (\<lceil>1 / \<bar>x\<bar>\<rceil> - 1))"

definition float32_round :: "real \<Rightarrow> real option" where
  "float32_round x =
     (if x = 0 then Some 0
      else let e = max (binary_exponent x) (- 126);
               ulp = 2 powi (e - 23);
               r = of_int (round_half_even (x / ulp)) * ulp
           in if 2 ^ 128 \<le> \<bar>r\<bar> then None else Some r)"

text \<open>
  The clamp of one joint, lines 205 to 217 of \<^verbatim>\<open>handle_walk_mode\<close>, when
  \<^verbatim>\<open>self.actions\<close> is the float32 array that \<^verbatim>\<open>compute_actions\<close> and \<^verbatim>\<open>np.clip\<close>
  leave: \<^verbatim>\<open>self.actions[i] = max(...)\<close> rounds the clamped action as it stores it, and
  \<^verbatim>\<open>pos_des = self.actions[i] * scale + init\<close> reads the stored value. The result is the
  stored action and the commanded position; the arithmetic on the stored value is exact.
\<close>

definition clamp_joint_float32 :: "config \<Rightarrow> real \<Rightarrow> real \<Rightarrow> real \<Rightarrow> real \<Rightarrow> (real \<times> real) option" where
  "clamp_joint_float32 c joint_pos_i init_angle_i joint_vel_i a = do {
     lo \<leftarrow> action_min c joint_pos_i init_angle_i joint_vel_i;
     hi \<leftarrow> action_max c joint_pos_i init_angle_i joint_vel_i;
     a' \<leftarrow> clip_action c lo hi a;
     stored \<leftarrow> float32_round a';
     let pos_des = stored * action_scale_pos c + init_angle_i;
     Some (stored, pos_des)
   }"

subsection \<open>Observation and inference\<close>

text \<open>
  \<^verbatim>\<open>compute_gait_phase\<close>; \<^verbatim>\<open>torch.remainder(x, 1.0)\<close> is the fractional part.
\<close>

definition compute_gait_phase :: "ext \<Rightarrow> controller \<Rightarrow> real list option" where
  "compute_gait_phase e s = do {
     t \<leftarrow> py_div (of_int (loop_count s)) (loop_frequency (cfg s));
     f \<leftarrow> list_get (gait_command s) 0;
     let gait_indices = frac (t * f);
     let sin_phase = torch_sin e (2 * torch_pi e * gait_indices);
     let cos_phase = torch_cos e (2 * torch_pi e * gait_indices);
     Some [sin_phase, cos_phase]
   }"

text \<open>The eight values that one call of \<^verbatim>\<open>compute_observation\<close> appends to the queues.\<close>

record sample =
  smp_base_ang_vel :: "real list"
  smp_projected_gravity :: "real list"
  smp_joint_positions :: "real list"
  smp_joint_velocities :: "real list"
  smp_actions :: "real list"
  smp_scaled_commands :: "real list"
  smp_gait_phase :: "real list"
  smp_gait_command :: "real list"

definition current_sample :: "ext \<Rightarrow> controller \<Rightarrow> sample option" where
  "current_sample e s = do {
     let imu_orientation = imu_quat (imu_data_tmp s);
     projected_gravity \<leftarrow> quat_inverse_apply e imu_orientation [0, 0, - 1];
     let base_ang_vel = imu_gyro (imu_data_tmp s);
     base_ang_vel \<leftarrow> euler_apply e (imu_orientation_offset (cfg s)) base_ang_vel;
     projected_gravity \<leftarrow> euler_apply e (imu_orientation_offset (cfg s)) projected_gravity;
     let joint_positions = rs_q (robot_state_tmp s);
     let joint_velocities = rs_dq (robot_state_tmp s);
     let acts = last_actions s;
     scaled_commands \<leftarrow> diag3_dot (lin_vel_x (cfg s)) (lin_vel_y (cfg s)) (ang_vel_yaw (cfg s)) (commands s);
     gait_phase \<leftarrow> compute_gait_phase e s;
     delta \<leftarrow> np_sub joint_positions (init_joint_angles s);
     Some \<lparr>smp_base_ang_vel = np_scale base_ang_vel (obs_scale_ang_vel (cfg s)),
       smp_projected_gravity = projected_gravity,
       smp_joint_positions = np_scale delta (obs_scale_dof_pos (cfg s)),
       smp_joint_velocities = np_scale joint_velocities (obs_scale_dof_vel (cfg s)),
       smp_actions = acts,
       smp_scaled_commands = scaled_commands,
       smp_gait_phase = gait_phase,
       smp_gait_command = gait_command s\<rparr>
   }"

text \<open>The eight \<^verbatim>\<open>append\<close> calls; every queue has \<^verbatim>\<open>maxlen=self.history_length\<close>.\<close>

definition append_sample :: "controller \<Rightarrow> sample \<Rightarrow> controller" where
  "append_sample s x =
     (let n = observations_history_length (cfg s) in
      s\<lparr>base_ang_vel_queue := deque_append n (base_ang_vel_queue s) (smp_base_ang_vel x),
        projected_gravity_queue := deque_append n (projected_gravity_queue s) (smp_projected_gravity x),
        joint_positions_queue := deque_append n (joint_positions_queue s) (smp_joint_positions x),
        joint_velocities_queue := deque_append n (joint_velocities_queue s) (smp_joint_velocities x),
        actions_queue := deque_append n (actions_queue s) (smp_actions x),
        scaled_commands_queue := deque_append n (scaled_commands_queue s) (smp_scaled_commands x),
        gait_phase_queue := deque_append n (gait_phase_queue s) (smp_gait_phase x),
        gait_command_queue := deque_append n (gait_command_queue s) (smp_gait_command x)\<rparr>)"

text \<open>\<^verbatim>\<open>while len(self.base_ang_vel_queue) < self.history_length\<close>: append to all eight.\<close>

function fill_history :: "controller \<Rightarrow> sample \<Rightarrow> controller" where
  "fill_history s x =
     (if length (base_ang_vel_queue s) < observations_history_length (cfg s)
      then fill_history (append_sample s x) x else s)"
  by pat_completeness auto
termination
  by (relation "measure (\<lambda>(s, x). observations_history_length (cfg s) - length (base_ang_vel_queue s))")
     (auto simp: append_sample_def deque_append_def Let_def)

declare fill_history.simps [simp del]

definition history_obs :: "controller \<Rightarrow> real list option" where
  "history_obs s = do {
     a \<leftarrow> np_flatten (base_ang_vel_queue s);
     b \<leftarrow> np_flatten (projected_gravity_queue s);
     c \<leftarrow> np_flatten (joint_positions_queue s);
     d \<leftarrow> np_flatten (joint_velocities_queue s);
     e \<leftarrow> np_flatten (actions_queue s);
     f \<leftarrow> np_flatten (scaled_commands_queue s);
     g \<leftarrow> np_flatten (gait_phase_queue s);
     h \<leftarrow> np_flatten (gait_command_queue s);
     Some (a @ b @ c @ d @ e @ f @ g @ h)
   }"

text \<open>
  \<^verbatim>\<open>compute_observation\<close>. The source evaluates the expressions of the sample anew at
  every append; they read nothing the appends change, so the sample is computed once.
\<close>

definition compute_observation :: "ext \<Rightarrow> controller \<Rightarrow> controller option" where
  "compute_observation e s = do {
     x \<leftarrow> current_sample e s;
     let s = fill_history s x;
     let s = append_sample s x;
     history \<leftarrow> history_obs s;
     let obs = np_clip history (- clip_observations (cfg s)) (clip_observations (cfg s));
     encoder_latent \<leftarrow> encoder_run e obs;
     Some (s\<lparr>observations := history @ encoder_latent\<rparr>)
   }"

definition compute_actions :: "ext \<Rightarrow> controller \<Rightarrow> controller option" where
  "compute_actions e s = do {
     out \<leftarrow> policy_run e (observations s);
     Some (s\<lparr>actions := out\<rparr>)
   }"

subsection \<open>WALK mode and the tick\<close>

definition handle_walk_mode :: "ext \<Rightarrow> controller \<Rightarrow> controller option" where
  "handle_walk_mode e s = do {
     tmp \<leftarrow> align_robot_state (robot_state s);
     let s = s\<lparr>robot_state_tmp := tmp, imu_data_tmp := imu_data s\<rparr>;
     r \<leftarrow> py_mod (loop_count s) (decimation (cfg s));
     s \<leftarrow> (if r = 0 then do {
            s \<leftarrow> compute_observation e s;
            s \<leftarrow> compute_actions e s;
            Some (s\<lparr>actions := np_clip (actions s) (- clip_actions (cfg s)) (clip_actions (cfg s))\<rparr>)
          } else Some s);
     let joint_pos = rs_q (robot_state_tmp s);
     let joint_vel = rs_dq (robot_state_tmp s);
     walk_joints s joint_pos joint_vel [0..<length joint_pos]
   }"

text \<open>\<^verbatim>\<open>update\<close>: the command it publishes is \<open>robot_cmd\<close> of the state it returns.\<close>

definition update :: "ext \<Rightarrow> controller \<Rightarrow> controller option" where
  "update e s = do {
     s \<leftarrow> (case mode s of STAND \<Rightarrow> handle_stand_mode s | WALK \<Rightarrow> handle_walk_mode e s);
     Some (s\<lparr>loop_count := loop_count s + 1\<rparr>)
   }"

text \<open>The first \<open>n\<close> iterations of the \<^verbatim>\<open>while True\<close> loop of \<^verbatim>\<open>run\<close>.\<close>

fun ticks :: "ext \<Rightarrow> nat \<Rightarrow> controller \<Rightarrow> controller option" where
  "ticks e 0 s = Some s"
| "ticks e (Suc n) s = do { s' \<leftarrow> update e s; ticks e n s' }"

subsection \<open>Callbacks of the transport layer\<close>

definition robot_state_callback :: "controller \<Rightarrow> robot_state \<Rightarrow> controller" where
  "robot_state_callback s st = s\<lparr>robot_state := st\<rparr>"

definition imu_data_callback :: "controller \<Rightarrow> imu_data \<Rightarrow> controller option" where
  "imu_data_callback s imu = do {
     let d = (imu_data s)\<lparr>imu_stamp := imu_stamp imu, imu_acc := imu_acc imu, imu_gyro := imu_gyro imu\<rparr>;
     x \<leftarrow> copy_item (imu_quat d) 0 (imu_quat imu) 1; let d = d\<lparr>imu_quat := x\<rparr>;
     x \<leftarrow> copy_item (imu_quat d) 1 (imu_quat imu) 2; let d = d\<lparr>imu_quat := x\<rparr>;
     x \<leftarrow> copy_item (imu_quat d) 2 (imu_quat imu) 3; let d = d\<lparr>imu_quat := x\<rparr>;
     x \<leftarrow> copy_item (imu_quat d) 3 (imu_quat imu) 0; let d = d\<lparr>imu_quat := x\<rparr>;
     Some (s\<lparr>imu_data := d\<rparr>)
   }"

definition sensor_joy_callback :: "controller \<Rightarrow> sensor_joy \<Rightarrow> controller option" where
  "sensor_joy_callback s joy = do {
     a \<leftarrow> list_get (joy_axes joy) 1; c \<leftarrow> list_set (commands s) 0 (a * (1 / 2)); let s = s\<lparr>commands := c\<rparr>;
     a \<leftarrow> list_get (joy_axes joy) 0; c \<leftarrow> list_set (commands s) 1 (a * (1 / 2)); let s = s\<lparr>commands := c\<rparr>;
     a \<leftarrow> list_get (joy_axes joy) 2; c \<leftarrow> list_set (commands s) 2 (a * (1 / 2)); let s = s\<lparr>commands := c\<rparr>;
     Some s
   }"

subsection \<open>The control loop as a transition system\<close>

text \<open>
  A callback of the transport layer, taken as one atomic step between two ticks.
\<close>

inductive callback :: "controller \<Rightarrow> controller \<Rightarrow> bool" where
  state_cb: "callback s (robot_state_callback s st)"
| imu_cb: "imu_data_callback s imu = Some s' \<Longrightarrow> callback s s'"
| joy_cb: "sensor_joy_callback s joy = Some s' \<Longrightarrow> callback s s'"

inductive step :: "ext \<Rightarrow> controller \<Rightarrow> controller \<Rightarrow> bool" for e where
  tick: "update e s = Some s' \<Longrightarrow> step e s s'"
| cb: "callback s s' \<Longrightarrow> step e s s'"

text \<open>
  The states of a run: the controller is constructed from a configuration, callbacks
  may arrive, \<^verbatim>\<open>run\<close> starts, and ticks and callbacks follow.
\<close>

inductive running :: "ext \<Rightarrow> config \<Rightarrow> controller \<Rightarrow> bool" for e c where
  start: "init_controller c = Some s0 \<Longrightarrow> callback\<^sup>*\<^sup>* s0 s1 \<Longrightarrow> run_init s1 = Some s \<Longrightarrow> running e c s"
| next_step: "running e c s \<Longrightarrow> step e s s' \<Longrightarrow> running e c s'"

subsection \<open>The actuator's PD law\<close>

text \<open>
  Modelled from the spec: the PD law runs in the actuator, outside the repository. The
  torque is stiffness times the position error plus damping times the velocity error,
  plus the feed-forward torque of the command.
\<close>

definition pd_torque :: "real \<Rightarrow> real \<Rightarrow> real \<Rightarrow> real \<Rightarrow> real \<Rightarrow> real \<Rightarrow> real \<Rightarrow> real" where
  "pd_torque kp kd q_des dq_des tau_ff q_meas dq_meas = kp * (q_des - q_meas) + kd * (dq_des - dq_meas) + tau_ff"


subsection \<open>Notions used by the properties\<close>

text \<open>
  \<open>inbound_aligned raw al\<close>: \<open>al\<close> is \<open>raw\<close> under the inbound permutation, entries
  1 to 4 taken from the raw entries 3, 1, 4, 2 and every other entry kept.
\<close>

definition inbound_aligned :: "real list \<Rightarrow> real list \<Rightarrow> bool" where
  "inbound_aligned raw al \<longleftrightarrow>
     length al = length raw \<and> al ! 1 = raw ! 3 \<and> al ! 2 = raw ! 1 \<and> al ! 3 = raw ! 4 \<and> al ! 4 = raw ! 2 \<and>
     (\<forall>i < length raw. i = 0 \<or> 5 \<le> i \<longrightarrow> al ! i = raw ! i)"

text \<open>A configuration of a six-joint robot and simple collaborators, for concrete runs.\<close>

definition example_joint_names :: "string list" where
  "example_joint_names =
     [''abad_L_Joint'', ''hip_L_Joint'', ''knee_L_Joint'', ''abad_R_Joint'', ''hip_R_Joint'', ''knee_R_Joint'']"

definition example_cfg :: config where
  "example_cfg = \<lparr>joint_names = example_joint_names,
     default_joint_angle = map_of (map (\<lambda>n. (n, 0)) example_joint_names),
     stand_duration = 2, stiffness = 30, damping = 1, decimation = 4,
     action_scale_pos = 1 / 2, user_torque_limit = 20, clip_actions = 100, clip_observations = 100,
     obs_scale_ang_vel = 1 / 4, obs_scale_dof_pos = 1, obs_scale_dof_vel = 1 / 20,
     actions_size = 6, observations_history_length = 2, latent_size = 1, observations_size = 32,
     imu_orientation_offset = [0, 0, 0], lin_vel_x = 2, lin_vel_y = 1, ang_vel_yaw = 1 / 2,
     loop_frequency = 500\<rparr>"

definition example_ext :: ext where
  "example_ext = \<lparr>encoder_run = (\<lambda>v. Some [0]), policy_run = (\<lambda>v. Some [1, 0, 0, 0, 0, 0]),
     quat_inverse_apply = (\<lambda>quat v. Some v), euler_apply = (\<lambda>offset v. Some v),
     torch_pi = 355 / 113, torch_sin = (\<lambda>x. 0), torch_cos = (\<lambda>x. 1)\<rparr>"

text \<open>
  \<open>cmd_kept cmd cmd'\<close>: the command \<open>cmd'\<close> differs from \<open>cmd\<close> in the entries of
  its target positions \<open>q\<close> at most.
\<close>

definition cmd_kept :: "robot_cmd \<Rightarrow> robot_cmd \<Rightarrow> bool" where
  "cmd_kept cmd cmd' \<longleftrightarrow> (\<exists>qs. cmd' = cmd\<lparr>cmd_q := qs\<rparr> \<and> length qs = length (cmd_q cmd))"

text \<open>
  \<open>stand_ready c s\<close>: what a STAND tick needs in order not to raise: five joints or
  more, a default angle for every joint name, and sequences of the joint count.
\<close>

definition stand_ready :: "config \<Rightarrow> controller \<Rightarrow> bool" where
  "stand_ready c s \<longleftrightarrow> cfg s = c \<and> 5 \<le> length (joint_names c) \<and>
     list_all (\<lambda>n. default_joint_angle c n \<noteq> None) (joint_names c) \<and>
     length (default_joint_angles s) = length (joint_names c) \<and>
     length (cmd_q (robot_cmd s)) = length (joint_names c)"

text \<open>The eight history buffers and the eight values of a sample, in the order of the channels.\<close>

definition queues :: "controller \<Rightarrow> real list list list" where
  "queues s = [base_ang_vel_queue s, projected_gravity_queue s, joint_positions_queue s,
     joint_velocities_queue s, actions_queue s, scaled_commands_queue s, gait_phase_queue s,
     gait_command_queue s]"

definition sample_values :: "sample \<Rightarrow> real list list" where
  "sample_values x = [smp_base_ang_vel x, smp_projected_gravity x, smp_joint_positions x,
     smp_joint_velocities x, smp_actions x, smp_scaled_commands x, smp_gait_phase x,
     smp_gait_command x]"

text \<open>
  A state in WALK mode at loop count 1001, between two inference ticks: the stored
  action of joint 0 is 1 and the measured position of joint 0 has moved to \<open>-1\<close>.
\<close>

definition example_walk_state :: controller where
  "example_walk_state = \<lparr>cfg = example_cfg,
     robot_cmd = \<lparr>cmd_mode = [0, 0, 0, 0, 0, 0], cmd_q = [0, 0, 0, 0, 0, 0], cmd_dq = [0, 0, 0, 0, 0, 0],
       cmd_tau = [0, 0, 0, 0, 0, 0], cmd_Kp = [30, 30, 30, 30, 30, 30], cmd_Kd = [1, 1, 1, 1, 1, 1]\<rparr>,
     robot_state = \<lparr>rs_tau = [0, 0, 0, 0, 0, 0], rs_q = [- 1, 0, 0, 0, 0, 0], rs_dq = [0, 0, 0, 0, 0, 0]\<rparr>,
     robot_state_tmp = \<lparr>rs_tau = [0, 0, 0, 0, 0, 0], rs_q = [0, 0, 0, 0, 0, 0], rs_dq = [0, 0, 0, 0, 0, 0]\<rparr>,
     imu_data = \<lparr>imu_stamp = 0, imu_acc = [0, 0, 0], imu_gyro = [0, 0, 0], imu_quat = [0, 0, 0, 1]\<rparr>,
     imu_data_tmp = \<lparr>imu_stamp = 0, imu_acc = [0, 0, 0], imu_gyro = [0, 0, 0], imu_quat = [0, 0, 0, 1]\<rparr>,
     gait_command = [2, 1 / 2, 1 / 2],
     base_ang_vel_queue = [], projected_gravity_queue = [], joint_positions_queue = [],
     joint_velocities_queue = [], actions_queue = [], scaled_commands_queue = [],
     gait_phase_queue = [], gait_command_queue = [],
     actions = [1, 0, 0, 0, 0, 0], observations = [], last_actions = [1, 0, 0, 0, 0, 0],
     commands = [0, 0, 0], loop_count = 1001, stand_percent = 1,
     init_joint_angles = [0, 0, 0, 0, 0, 0], default_joint_angles = [0, 0, 0, 0, 0, 0], mode = WALK\<rparr>"

text \<open>
  Two states at loop count 1000, an inference tick of WALK mode: the robot at rest, and
  joint 0 moving at 4000 rad/s. And a configuration whose STAND phase lasts one tick and
  that infers at every tick.
\<close>

definition example_inference_state :: controller where
  "example_inference_state = example_walk_state\<lparr>
     robot_state := \<lparr>rs_tau = [0, 0, 0, 0, 0, 0], rs_q = [0, 0, 0, 0, 0, 0], rs_dq = [0, 0, 0, 0, 0, 0]\<rparr>,
     actions := [0, 0, 0, 0, 0, 0], last_actions := [0, 0, 0, 0, 0, 0], loop_count := 1000\<rparr>"

definition example_fast_state :: controller where
  "example_fast_state = example_inference_state\<lparr>
     robot_state := \<lparr>rs_tau = [0, 0, 0, 0, 0, 0], rs_q = [0, 0, 0, 0, 0, 0], rs_dq = [4000, 0, 0, 0, 0, 0]\<rparr>\<rparr>"

definition quick_cfg :: config where
  "quick_cfg = example_cfg\<lparr>stand_duration := 1 / 500, decimation := 1\<rparr>"

section \<open>Properties\<close>

subsection \<open>Sequences\<close>

lemma list_set_Some: "i < length xs \<Longrightarrow> list_set xs i v = Some (xs[i := v])"
  by (simp add: list_set_def)

lemma list_get_Some: "i < length xs \<Longrightarrow> list_get xs i = Some (xs ! i)"
  by (simp add: list_get_def)

lemma copy_item_Some:
  "j < length src \<Longrightarrow> i < length dst \<Longrightarrow> copy_item dst i src j = Some (dst[i := src ! j])"
  by (simp add: copy_item_def list_get_def list_set_def)

subsection \<open>Joint remapping\<close>

lemma align_robot_state_Some:
  assumes "5 \<le> length (rs_q r)" "5 \<le> length (rs_dq r)" "5 \<le> length (rs_tau r)"
  shows "align_robot_state r = Some (r\<lparr>
    rs_q := (rs_q r)[1 := rs_q r ! 3, 2 := rs_q r ! 1, 3 := rs_q r ! 4, 4 := rs_q r ! 2],
    rs_dq := (rs_dq r)[1 := rs_dq r ! 3, 2 := rs_dq r ! 1, 3 := rs_dq r ! 4, 4 := rs_dq r ! 2],
    rs_tau := (rs_tau r)[1 := rs_tau r ! 3, 2 := rs_tau r ! 1, 3 := rs_tau r ! 4, 4 := rs_tau r ! 2]\<rparr>)"
  using assms by (simp add: align_robot_state_def copy_item_Some)

text \<open>With fewer than five entries in one of the three sequences an index is out of range.\<close>

lemma align_robot_state_None:
  assumes "\<not> (5 \<le> length (rs_q r) \<and> 5 \<le> length (rs_dq r) \<and> 5 \<le> length (rs_tau r))"
  shows "align_robot_state r = None"
proof (rule ccontr)
  assume "align_robot_state r \<noteq> None"
  then obtain a where "align_robot_state r = Some a" by auto
  then have "4 < length (rs_q r) \<and> 4 < length (rs_dq r) \<and> 4 < length (rs_tau r)"
    unfolding align_robot_state_def Let_def
    by (auto simp: bind_eq_Some_conv copy_item_def list_get_def split: if_splits)
  with assms show False by simp
qed

lemma align_robot_state_SomeD:
  assumes "align_robot_state r = Some a"
  shows "5 \<le> length (rs_q r)" "5 \<le> length (rs_dq r)" "5 \<le> length (rs_tau r)"
    "rs_q a = (rs_q r)[1 := rs_q r ! 3, 2 := rs_q r ! 1, 3 := rs_q r ! 4, 4 := rs_q r ! 2]"
    "rs_dq a = (rs_dq r)[1 := rs_dq r ! 3, 2 := rs_dq r ! 1, 3 := rs_dq r ! 4, 4 := rs_dq r ! 2]"
proof -
  have len: "5 \<le> length (rs_q r) \<and> 5 \<le> length (rs_dq r) \<and> 5 \<le> length (rs_tau r)"
    using assms align_robot_state_None [of r] by fastforce
  then show "5 \<le> length (rs_q r)" "5 \<le> length (rs_dq r)" "5 \<le> length (rs_tau r)" by simp_all
  have "align_robot_state r = Some (r\<lparr>
    rs_q := (rs_q r)[1 := rs_q r ! 3, 2 := rs_q r ! 1, 3 := rs_q r ! 4, 4 := rs_q r ! 2],
    rs_dq := (rs_dq r)[1 := rs_dq r ! 3, 2 := rs_dq r ! 1, 3 := rs_dq r ! 4, 4 := rs_dq r ! 2],
    rs_tau := (rs_tau r)[1 := rs_tau r ! 3, 2 := rs_tau r ! 1, 3 := rs_tau r ! 4, 4 := rs_tau r ! 2]\<rparr>)"
    using len by (intro align_robot_state_Some) simp_all
  with assms show
    "rs_q a = (rs_q r)[1 := rs_q r ! 3, 2 := rs_q r ! 1, 3 := rs_q r ! 4, 4 := rs_q r ! 2]"
    "rs_dq a = (rs_dq r)[1 := rs_dq r ! 3, 2 := rs_dq r ! 1, 3 := rs_dq r ! 4, 4 := rs_dq r ! 2]"
    by auto
qed

text \<open>The two index tables, justified on the code.\<close>

lemma set_joint_command_aligned_toPhysical:
  "set_joint_command_aligned cmd i v = set_cmd_q cmd (toPhysical i) v"
  by (simp add: set_joint_command_aligned_def toPhysical_def)

lemma align_robot_state_toLogical:
  assumes "align_robot_state r = Some a" "p < length (rs_q r)"
  shows "rs_q a ! toLogical p = rs_q r ! p"
  using align_robot_state_SomeD(1,4) [OF assms(1)] assms(2) by (auto simp: toLogical_def)

lemma toPhysical_less: "5 \<le> n \<Longrightarrow> i < n \<Longrightarrow> toPhysical i < n"
  by (simp add: toPhysical_def)

lemma toPhysical_inj: "toPhysical i = toPhysical j \<Longrightarrow> i = j"
  by (simp add: toPhysical_def split: if_splits)

lemma inbound_aligned_update:
  "5 \<le> length xs \<Longrightarrow> inbound_aligned xs (xs[1 := xs ! 3, 2 := xs ! 1, 3 := xs ! 4, 4 := xs ! 2])"
  by (auto simp: inbound_aligned_def)

text \<open>
  C6. The inbound alignment puts the raw entries 3, 1, 4, 2 at the indices 1, 2, 3, 4 of
  \<open>q\<close>, \<open>dq\<close> and \<open>tau\<close> alike and keeps index 0 and every index from 5 on. With six
  joints the raw \<open>q = [0.1, 0.2, 0.3, 0.4, 0.5, 0.6]\<close> aligns to
  \<open>[0.1, 0.4, 0.2, 0.5, 0.3, 0.6]\<close>.
\<close>

theorem align_robot_state_table:
  "(5 \<le> length (rs_q r) \<and> 5 \<le> length (rs_dq r) \<and> 5 \<le> length (rs_tau r) \<longrightarrow>
      (\<exists>a. align_robot_state r = Some a \<and> inbound_aligned (rs_q r) (rs_q a) \<and>
         inbound_aligned (rs_dq r) (rs_dq a) \<and> inbound_aligned (rs_tau r) (rs_tau a))) \<and>
   (5 \<le> length dq \<and> 5 \<le> length tau \<longrightarrow>
      (\<exists>a. align_robot_state \<lparr>rs_tau = tau, rs_q = [1/10, 2/10, 3/10, 4/10, 5/10, 6/10], rs_dq = dq\<rparr> = Some a \<and>
         rs_q a = [1/10, 4/10, 2/10, 5/10, 3/10, 6/10]))"
proof (intro conjI impI)
  assume len: "5 \<le> length (rs_q r) \<and> 5 \<le> length (rs_dq r) \<and> 5 \<le> length (rs_tau r)"
  show "\<exists>a. align_robot_state r = Some a \<and> inbound_aligned (rs_q r) (rs_q a) \<and>
         inbound_aligned (rs_dq r) (rs_dq a) \<and> inbound_aligned (rs_tau r) (rs_tau a)"
    using len inbound_aligned_update [of "rs_q r"] inbound_aligned_update [of "rs_dq r"]
      inbound_aligned_update [of "rs_tau r"]
    by (simp add: align_robot_state_Some del: One_nat_def)
next
  assume "5 \<le> length dq \<and> 5 \<le> length tau"
  then show "\<exists>a. align_robot_state \<lparr>rs_tau = tau, rs_q = [1/10, 2/10, 3/10, 4/10, 5/10, 6/10], rs_dq = dq\<rparr> = Some a \<and>
         rs_q a = [1/10, 4/10, 2/10, 5/10, 3/10, 6/10]"
    by (simp add: align_robot_state_Some)
qed

theorem align_robot_state_table_witness:
  "align_robot_state \<lparr>rs_tau = [1, 2, 3, 4, 5, 6], rs_q = [1/10, 2/10, 3/10, 4/10, 5/10, 6/10], rs_dq = [7, 8, 9, 10, 11, 12]\<rparr>
     = Some \<lparr>rs_tau = [1, 4, 2, 5, 3, 6], rs_q = [1/10, 4/10, 2/10, 5/10, 3/10, 6/10], rs_dq = [7, 10, 8, 11, 9, 12]\<rparr>"
  using align_robot_state_table [of "\<lparr>rs_tau = [1, 2, 3, 4, 5, 6], rs_q = [1/10, 2/10, 3/10, 4/10, 5/10, 6/10], rs_dq = [7, 8, 9, 10, 11, 12]\<rparr>" "[]" "[]"]
  by (simp add: align_robot_state_Some)

text \<open>
  C4. The outbound mapping inverts the inbound one: \<open>toLogical (toPhysical i) = i\<close>, and
  a value written for the logical joint \<open>i\<close> by \<^verbatim>\<open>set_joint_command_aligned\<close> is found
  at index \<open>i\<close> again when the written sequence is read through \<^verbatim>\<open>align_robot_state\<close>.
\<close>

theorem outbound_inverse_of_inbound:
  "toLogical (toPhysical i) = i \<and>
   (5 \<le> length (cmd_q cmd) \<and> i < length (cmd_q cmd) \<and> 5 \<le> length dq \<and> 5 \<le> length tau \<longrightarrow>
      (\<exists>cmd' a. set_joint_command_aligned cmd i v = Some cmd' \<and>
         align_robot_state \<lparr>rs_tau = tau, rs_q = cmd_q cmd', rs_dq = dq\<rparr> = Some a \<and>
         rs_q a ! i = v))"
proof (intro conjI impI)
  show inv: "toLogical (toPhysical i) = i" by (simp add: toLogical_def toPhysical_def)
  assume len: "5 \<le> length (cmd_q cmd) \<and> i < length (cmd_q cmd) \<and> 5 \<le> length dq \<and> 5 \<le> length tau"
  define cmd' where "cmd' = cmd\<lparr>cmd_q := (cmd_q cmd)[toPhysical i := v]\<rparr>"
  define r where "r = \<lparr>rs_tau = tau, rs_q = cmd_q cmd', rs_dq = dq\<rparr>"
  have tp: "toPhysical i < length (cmd_q cmd)" using len by (simp add: toPhysical_less)
  then have w: "set_joint_command_aligned cmd i v = Some cmd'"
    by (simp add: set_joint_command_aligned_toPhysical set_cmd_q_def list_set_def cmd'_def)
  have "5 \<le> length (rs_q r)" "5 \<le> length (rs_dq r)" "5 \<le> length (rs_tau r)"
    using len by (simp_all add: r_def cmd'_def)
  then obtain a where a: "align_robot_state r = Some a"
    using align_robot_state_Some by blast
  have "rs_q a ! toLogical (toPhysical i) = rs_q r ! toPhysical i"
    using a tp by (intro align_robot_state_toLogical) (simp_all add: r_def cmd'_def)
  then have "rs_q a ! i = v" using inv tp by (simp add: r_def cmd'_def)
  with w a show "\<exists>cmd' a. set_joint_command_aligned cmd i v = Some cmd' \<and>
         align_robot_state \<lparr>rs_tau = tau, rs_q = cmd_q cmd', rs_dq = dq\<rparr> = Some a \<and> rs_q a ! i = v"
    unfolding r_def by blast
qed

theorem outbound_inverse_of_inbound_witness:
  "toLogical (toPhysical 2) = 2 \<and>
   (\<exists>cmd' a. set_joint_command_aligned
        \<lparr>cmd_mode = [], cmd_q = [0, 0, 0, 0, 0, 0], cmd_dq = [], cmd_tau = [], cmd_Kp = [], cmd_Kd = []\<rparr> 2 7 = Some cmd' \<and>
      align_robot_state \<lparr>rs_tau = [0, 0, 0, 0, 0, 0], rs_q = cmd_q cmd', rs_dq = [0, 0, 0, 0, 0, 0]\<rparr> = Some a \<and>
      rs_q a ! 2 = 7)"
  using outbound_inverse_of_inbound [of 2
      "\<lparr>cmd_mode = [], cmd_q = [0, 0, 0, 0, 0, 0], cmd_dq = [], cmd_tau = [], cmd_Kp = [], cmd_Kd = []\<rparr>"
      "[0, 0, 0, 0, 0, 0]" "[0, 0, 0, 0, 0, 0]" 7]
  by simp

subsection \<open>The safety clamp\<close>

lemma clip_between: "l \<le> h \<Longrightarrow> l \<le> max l (min h a) \<and> max l (min h (a::real)) \<le> h"
  by auto

text \<open>
  C1, as amended. Over exact real arithmetic, that is for the clamped action as it is
  computed and before it is rounded into the float32 array: with a positive stiffness, a
  positive action scale and a torque limit that is not negative, the clamped action of a
  joint gives a commanded position \<open>a' * action_scale_pos + q0\<close> whose PD torque against
  the same measured position and velocity, \<open>stiffness * (pos_des - q) - damping * dq\<close>,
  is at most the torque limit in magnitude, whatever the raw action and the measured
  state are.
\<close>

theorem clamp_bounds_torque:
  assumes "0 < stiffness c" "0 \<le> user_torque_limit c" "0 < action_scale_pos c"
  shows "\<exists>lo hi a'. action_min c q_i q0_i dq_i = Some lo \<and> action_max c q_i q0_i dq_i = Some hi \<and>
     clip_action c lo hi a = Some a' \<and>
     pd_torque (stiffness c) (damping c) (a' * action_scale_pos c + q0_i) 0 0 q_i dq_i
       = stiffness c * (a' * action_scale_pos c + q0_i - q_i) - damping c * dq_i \<and>
     \<bar>pd_torque (stiffness c) (damping c) (a' * action_scale_pos c + q0_i) 0 0 q_i dq_i\<bar> \<le> user_torque_limit c"
proof -
  define k where "k = stiffness c"
  define s where "s = action_scale_pos c"
  define T where "T = user_torque_limit c"
  define d where "d = damping c * dq_i"
  define lo where "lo = q_i - q0_i + (d - T) / k"
  define hi where "hi = q_i - q0_i + (d + T) / k"
  define a' where "a' = max (lo / s) (min (hi / s) a)"
  have k: "0 < k" and s: "0 < s" and T: "0 \<le> T" using assms by (simp_all add: k_def s_def T_def)
  have "(d - T) / k \<le> (d + T) / k" using k T by (simp add: divide_right_mono)
  then have "lo \<le> hi" by (simp add: lo_def hi_def)
  then have "lo / s \<le> hi / s" using s by (simp add: divide_right_mono)
  then have "lo / s \<le> a' \<and> a' \<le> hi / s" unfolding a'_def by (rule clip_between)
  then have b: "lo \<le> a' * s \<and> a' * s \<le> hi" using s by (simp add: pos_divide_le_eq pos_le_divide_eq)
  have "(d - T) / k \<le> a' * s + q0_i - q_i" "a' * s + q0_i - q_i \<le> (d + T) / k"
    using b by (simp_all add: lo_def hi_def)
  then have "d - T \<le> k * (a' * s + q0_i - q_i)" "k * (a' * s + q0_i - q_i) \<le> d + T"
    using k by (simp_all add: pos_divide_le_eq pos_le_divide_eq mult.commute)
  then have "\<bar>k * (a' * s + q0_i - q_i) - d\<bar> \<le> T" by linarith
  then have tq: "\<bar>pd_torque (stiffness c) (damping c) (a' * action_scale_pos c + q0_i) 0 0 q_i dq_i\<bar> \<le> user_torque_limit c"
    by (simp add: pd_torque_def k_def s_def T_def d_def)
  have eq: "pd_torque (stiffness c) (damping c) (a' * action_scale_pos c + q0_i) 0 0 q_i dq_i
       = stiffness c * (a' * action_scale_pos c + q0_i - q_i) - damping c * dq_i"
    by (simp add: pd_torque_def)
  have "action_min c q_i q0_i dq_i = Some lo" "action_max c q_i q0_i dq_i = Some hi"
    using k by (simp_all add: action_min_def action_max_def np_div_def lo_def hi_def k_def d_def T_def)
  moreover have "clip_action c lo hi a = Some a'"
    using s by (simp add: clip_action_def np_div_def a'_def s_def)
  ultimately show ?thesis using tq eq by blast
qed

theorem clamp_bounds_torque_witness:
  "0 < stiffness example_cfg \<and> 0 \<le> user_torque_limit example_cfg \<and> 0 < action_scale_pos example_cfg \<and>
   (\<exists>lo hi a'. action_min example_cfg 0 0 0 = Some lo \<and> action_max example_cfg 0 0 0 = Some hi \<and>
     clip_action example_cfg lo hi 5 = Some a' \<and>
     pd_torque (stiffness example_cfg) (damping example_cfg) (a' * action_scale_pos example_cfg + 0) 0 0 0 0
       = stiffness example_cfg * (a' * action_scale_pos example_cfg + 0 - 0) - damping example_cfg * 0 \<and>
     \<bar>pd_torque (stiffness example_cfg) (damping example_cfg) (a' * action_scale_pos example_cfg + 0) 0 0 0 0\<bar>
       \<le> user_torque_limit example_cfg)"
proof -
  have h: "0 < stiffness example_cfg" "0 \<le> user_torque_limit example_cfg" "0 < action_scale_pos example_cfg"
    by (simp_all add: example_cfg_def)
  show ?thesis using h clamp_bounds_torque [OF h, of 0 0 0 5] by blast
qed


text \<open>
  C5, as amended. The outbound table of \<^verbatim>\<open>set_joint_command_aligned\<close> is 1\<rightarrow>3, 2\<rightarrow>1,
  3\<rightarrow>4, 4\<rightarrow>2 (logical joint to slot of the command); joint 0 and every joint from 5 on
  keep their index.
\<close>

theorem outbound_table:
  "set_joint_command_aligned cmd i v =
     set_cmd_q cmd (if i = 1 then 3 else if i = 2 then 1 else if i = 3 then 4 else if i = 4 then 2 else i) v
   \<and> toPhysical i = (if i = 1 then 3 else if i = 2 then 1 else if i = 3 then 4 else if i = 4 then 2 else i)"
  by (simp add: set_joint_command_aligned_def toPhysical_def)

theorem outbound_table_witness:
  "set_joint_command_aligned
     \<lparr>cmd_mode = [], cmd_q = [0, 0, 0, 0, 0, 0], cmd_dq = [], cmd_tau = [], cmd_Kp = [], cmd_Kd = []\<rparr> 3 7
   = Some \<lparr>cmd_mode = [], cmd_q = [0, 0, 0, 0, 7, 0], cmd_dq = [], cmd_tau = [], cmd_Kp = [], cmd_Kd = []\<rparr>"
  using outbound_table [of
      "\<lparr>cmd_mode = [], cmd_q = [0, 0, 0, 0, 0, 0], cmd_dq = [], cmd_tau = [], cmd_Kp = [], cmd_Kd = []\<rparr>" 3 7]
  by (simp add: set_cmd_q_def list_set_def)

text \<open>
  The table of the specification (1\<rightarrow>3, 2\<rightarrow>4, 3\<rightarrow>1, 4\<rightarrow>2) is not the one of the code:
  the command for the logical joint 2 is written to slot 1, not to slot 4.
\<close>

theorem spec_outbound_table_refuted:
  "set_joint_command_aligned
     \<lparr>cmd_mode = [], cmd_q = [0, 0, 0, 0, 0, 0], cmd_dq = [], cmd_tau = [], cmd_Kp = [], cmd_Kd = []\<rparr> 2 7
   = Some \<lparr>cmd_mode = [], cmd_q = [0, 7, 0, 0, 0, 0], cmd_dq = [], cmd_tau = [], cmd_Kp = [], cmd_Kd = []\<rparr>
   \<and> set_cmd_q
     \<lparr>cmd_mode = [], cmd_q = [0, 0, 0, 0, 0, 0], cmd_dq = [], cmd_tau = [], cmd_Kp = [], cmd_Kd = []\<rparr>
     (spec_outbound 2) 7
   = Some \<lparr>cmd_mode = [], cmd_q = [0, 0, 0, 0, 7, 0], cmd_dq = [], cmd_tau = [], cmd_Kp = [], cmd_Kd = []\<rparr>
   \<and> toPhysical 2 \<noteq> spec_outbound 2"
  by (simp add: set_joint_command_aligned_def set_cmd_q_def list_set_def spec_outbound_def toPhysical_def)

subsection \<open>What each operation leaves unchanged\<close>



lemma set_cmd_q_frame:
  "set_cmd_q cmd i v = Some cmd' \<Longrightarrow>
     cmd' = cmd\<lparr>cmd_q := (cmd_q cmd)[i := v]\<rparr> \<and> i < length (cmd_q cmd)"
  by (auto simp: set_cmd_q_def list_set_def bind_eq_Some_conv split: if_splits)

lemma set_joint_command_aligned_frame:
  "set_joint_command_aligned cmd i v = Some cmd' \<Longrightarrow>
     cmd' = cmd\<lparr>cmd_q := (cmd_q cmd)[toPhysical i := v]\<rparr> \<and> toPhysical i < length (cmd_q cmd)"
  unfolding set_joint_command_aligned_toPhysical by (rule set_cmd_q_frame)

lemma stand_joints_frame:
  "stand_joints s js = Some s' \<Longrightarrow>
     \<exists>qs. s' = s\<lparr>robot_cmd := (robot_cmd s)\<lparr>cmd_q := qs\<rparr>\<rparr> \<and> length qs = length (cmd_q (robot_cmd s))"
proof (induction js arbitrary: s)
  case Nil
  then show ?case by (auto intro: exI [of _ "cmd_q (robot_cmd s)"])
next
  case (Cons j js)
  from Cons.prems obtain cmd v where
    c: "set_joint_command_aligned (robot_cmd s) j v = Some cmd"
    and r: "stand_joints (s\<lparr>robot_cmd := cmd\<rparr>) js = Some s'"
    by (auto simp: bind_eq_Some_conv Let_def)
  from Cons.IH [OF r] obtain qs where
    "s' = s\<lparr>robot_cmd := cmd\<rparr>\<lparr>robot_cmd := (robot_cmd (s\<lparr>robot_cmd := cmd\<rparr>))\<lparr>cmd_q := qs\<rparr>\<rparr>"
    "length qs = length (cmd_q (robot_cmd (s\<lparr>robot_cmd := cmd\<rparr>)))" by blast
  with set_joint_command_aligned_frame [OF c] show ?case by auto
qed

lemma walk_joints_frame:
  "walk_joints s jp jv js = Some s' \<Longrightarrow>
     \<exists>acts qs last. s' = s\<lparr>actions := acts, robot_cmd := (robot_cmd s)\<lparr>cmd_q := qs\<rparr>, last_actions := last\<rparr>
        \<and> length acts = length (actions s) \<and> length qs = length (cmd_q (robot_cmd s))
        \<and> length last = length (last_actions s)"
proof (induction js arbitrary: s)
  case Nil
  have "\<exists>acts qs last. s = s\<lparr>actions := acts, robot_cmd := (robot_cmd s)\<lparr>cmd_q := qs\<rparr>, last_actions := last\<rparr>
        \<and> length acts = length (actions s) \<and> length qs = length (cmd_q (robot_cmd s))
        \<and> length last = length (last_actions s)"
    by (rule exI [of _ "actions s"], rule exI [of _ "cmd_q (robot_cmd s)"], rule exI [of _ "last_actions s"]) simp
  moreover from Nil have "s' = s" by simp
  ultimately show ?case by simp
next
  case (Cons j js)
  from Cons.prems obtain acts cmd last a v where
    a: "list_set (actions s) j a = Some acts"
    and c: "set_joint_command_aligned (robot_cmd s) j v = Some cmd"
    and l: "list_set (last_actions s) j a = Some last"
    and r: "walk_joints (s\<lparr>actions := acts, robot_cmd := cmd, last_actions := last\<rparr>) jp jv js = Some s'"
    by (auto simp: bind_eq_Some_conv Let_def)
  from a l have len: "length acts = length (actions s)" "length last = length (last_actions s)"
    by (auto simp: list_set_def split: if_splits)
  from Cons.IH [OF r] obtain acts' qs last' where
    "s' = s\<lparr>actions := acts, robot_cmd := cmd, last_actions := last\<rparr>
       \<lparr>actions := acts', robot_cmd := cmd\<lparr>cmd_q := qs\<rparr>, last_actions := last'\<rparr>"
    "length acts' = length acts" "length qs = length (cmd_q cmd)" "length last' = length last"
    by auto
  with set_joint_command_aligned_frame [OF c] len show ?case by auto
qed

lemma append_sample_cfg [simp]: "cfg (append_sample s x) = cfg s"
  by (simp add: append_sample_def Let_def)

lemma fill_history_frame:
  "\<exists>q1 q2 q3 q4 q5 q6 q7 q8. fill_history s x = s\<lparr>base_ang_vel_queue := q1, projected_gravity_queue := q2,
      joint_positions_queue := q3, joint_velocities_queue := q4, actions_queue := q5,
      scaled_commands_queue := q6, gait_phase_queue := q7, gait_command_queue := q8\<rparr>"
proof (induction s x rule: fill_history.induct)
  case (1 s x)
  show ?case
  proof (cases "length (base_ang_vel_queue s) < observations_history_length (cfg s)")
    case True
    with 1 obtain q1 q2 q3 q4 q5 q6 q7 q8 where
      "fill_history (append_sample s x) x = (append_sample s x)\<lparr>base_ang_vel_queue := q1, projected_gravity_queue := q2,
        joint_positions_queue := q3, joint_velocities_queue := q4, actions_queue := q5,
        scaled_commands_queue := q6, gait_phase_queue := q7, gait_command_queue := q8\<rparr>" by blast
    then have "fill_history s x = s\<lparr>base_ang_vel_queue := q1, projected_gravity_queue := q2,
        joint_positions_queue := q3, joint_velocities_queue := q4, actions_queue := q5,
        scaled_commands_queue := q6, gait_phase_queue := q7, gait_command_queue := q8\<rparr>"
      using True by (subst fill_history.simps) (simp add: append_sample_def Let_def)
    then show ?thesis by blast
  next
    case False
    then have "fill_history s x = s" by (subst fill_history.simps) simp
    moreover have "\<exists>q1 q2 q3 q4 q5 q6 q7 q8. s = s\<lparr>base_ang_vel_queue := q1, projected_gravity_queue := q2,
      joint_positions_queue := q3, joint_velocities_queue := q4, actions_queue := q5,
      scaled_commands_queue := q6, gait_phase_queue := q7, gait_command_queue := q8\<rparr>"
      by (rule exI [of _ "base_ang_vel_queue s"], rule exI [of _ "projected_gravity_queue s"],
        rule exI [of _ "joint_positions_queue s"], rule exI [of _ "joint_velocities_queue s"],
        rule exI [of _ "actions_queue s"], rule exI [of _ "scaled_commands_queue s"],
        rule exI [of _ "gait_phase_queue s"], rule exI [of _ "gait_command_queue s"]) simp
    ultimately show ?thesis by simp
  qed
qed

lemma compute_observation_frame:
  assumes "compute_observation e s = Some s'"
  shows "\<exists>q1 q2 q3 q4 q5 q6 q7 q8 obs. s' = s\<lparr>base_ang_vel_queue := q1, projected_gravity_queue := q2,
      joint_positions_queue := q3, joint_velocities_queue := q4, actions_queue := q5,
      scaled_commands_queue := q6, gait_phase_queue := q7, gait_command_queue := q8, observations := obs\<rparr>"
proof -
  from assms obtain x obs where
    s': "s' = (append_sample (fill_history s x) x)\<lparr>observations := obs\<rparr>"
    by (auto simp: compute_observation_def bind_eq_Some_conv Let_def)
  obtain q1 q2 q3 q4 q5 q6 q7 q8 where "fill_history s x = s\<lparr>base_ang_vel_queue := q1, projected_gravity_queue := q2,
      joint_positions_queue := q3, joint_velocities_queue := q4, actions_queue := q5,
      scaled_commands_queue := q6, gait_phase_queue := q7, gait_command_queue := q8\<rparr>"
    using fill_history_frame by blast
  then show ?thesis unfolding s' append_sample_def Let_def by (simp del: ex_simps) blast
qed



lemma cmd_kept_refl: "cmd_kept cmd cmd"
  unfolding cmd_kept_def by (rule exI [of _ "cmd_q cmd"]) simp

lemma cmd_kept_trans: "cmd_kept a b \<Longrightarrow> cmd_kept b c \<Longrightarrow> cmd_kept a c"
  unfolding cmd_kept_def by auto

lemma handle_stand_mode_frame:
  assumes "handle_stand_mode s = Some s'"
  shows "cfg s' = cfg s \<and> cmd_kept (robot_cmd s) (robot_cmd s') \<and> loop_count s' = loop_count s"
proof (cases "stand_percent s < 1")
  case True
  with assms obtain s1 inc where "stand_joints s [0..<length (joint_names (cfg s))] = Some s1"
    and s': "s' = s1\<lparr>stand_percent := stand_percent s1 + inc\<rparr>"
    by (auto simp: handle_stand_mode_def bind_eq_Some_conv)
  from stand_joints_frame [OF this(1)] s' show ?thesis by (auto simp: cmd_kept_def)
next
  case False
  with assms show ?thesis by (auto simp: handle_stand_mode_def cmd_kept_refl)
qed

lemma handle_walk_mode_frame:
  assumes "handle_walk_mode e s = Some s'"
  shows "cfg s' = cfg s \<and> cmd_kept (robot_cmd s) (robot_cmd s') \<and> loop_count s' = loop_count s
    \<and> mode s' = mode s \<and> stand_percent s' = stand_percent s"
proof -
  from assms obtain tmp and r :: int and s2 where
    s2: "(if r = 0 then do {
            s \<leftarrow> compute_observation e (s\<lparr>robot_state_tmp := tmp, imu_data_tmp := imu_data s\<rparr>);
            s \<leftarrow> compute_actions e s;
            Some (s\<lparr>actions := np_clip (actions s) (- clip_actions (cfg s)) (clip_actions (cfg s))\<rparr>)
          } else Some (s\<lparr>robot_state_tmp := tmp, imu_data_tmp := imu_data s\<rparr>)) = Some s2"
    and w: "walk_joints s2 (rs_q (robot_state_tmp s2)) (rs_dq (robot_state_tmp s2))
              [0..<length (rs_q (robot_state_tmp s2))] = Some s'"
    by (auto simp: handle_walk_mode_def bind_eq_Some_conv Let_def)
  have "cfg s2 = cfg s \<and> robot_cmd s2 = robot_cmd s \<and> loop_count s2 = loop_count s
    \<and> mode s2 = mode s \<and> stand_percent s2 = stand_percent s"
  proof (cases "r = 0")
    case True
    with s2 obtain a b where a: "compute_observation e (s\<lparr>robot_state_tmp := tmp, imu_data_tmp := imu_data s\<rparr>) = Some a"
      and b: "compute_actions e a = Some b"
      and "s2 = b\<lparr>actions := np_clip (actions b) (- clip_actions (cfg b)) (clip_actions (cfg b))\<rparr>"
      by (auto simp: bind_eq_Some_conv)
    with compute_observation_frame [OF a] show ?thesis
      by (auto simp: compute_actions_def bind_eq_Some_conv)
  next
    case False
    with s2 show ?thesis by auto
  qed
  with walk_joints_frame [OF w] show ?thesis by (auto simp: cmd_kept_def)
qed

lemma update_frame:
  assumes "update e s = Some s'"
  shows "cfg s' = cfg s \<and> cmd_kept (robot_cmd s) (robot_cmd s') \<and> loop_count s' = loop_count s + 1
    \<and> (mode s = WALK \<longrightarrow> mode s' = WALK)"
proof (cases "mode s")
  case STAND
  with assms obtain s1 where "handle_stand_mode s = Some s1" "s' = s1\<lparr>loop_count := loop_count s1 + 1\<rparr>"
    by (auto simp: update_def bind_eq_Some_conv)
  with handle_stand_mode_frame [OF this(1)] STAND show ?thesis by simp
next
  case WALK
  with assms obtain s1 where "handle_walk_mode e s = Some s1" "s' = s1\<lparr>loop_count := loop_count s1 + 1\<rparr>"
    by (auto simp: update_def bind_eq_Some_conv)
  with handle_walk_mode_frame [OF this(1)] WALK show ?thesis by simp
qed

lemma callback_frame:
  assumes "callback s s'"
  shows "cfg s' = cfg s \<and> robot_cmd s' = robot_cmd s \<and> mode s' = mode s \<and> loop_count s' = loop_count s"
  using assms
  by (cases rule: callback.cases)
    (auto simp: robot_state_callback_def imu_data_callback_def sensor_joy_callback_def
      bind_eq_Some_conv Let_def)

lemma step_frame:
  assumes "step e s s'"
  shows "cfg s' = cfg s \<and> cmd_kept (robot_cmd s) (robot_cmd s') \<and> (mode s = WALK \<longrightarrow> mode s' = WALK)"
  using assms
proof (cases rule: step.cases)
  case tick
  from update_frame [OF this] show ?thesis by simp
next
  case cb
  from callback_frame [OF this] show ?thesis by (simp add: cmd_kept_refl)
qed

lemma steps_frame:
  "(step e)\<^sup>*\<^sup>* s s' \<Longrightarrow> cfg s' = cfg s \<and> cmd_kept (robot_cmd s) (robot_cmd s')"
proof (induction rule: rtranclp_induct)
  case base
  then show ?case by (simp add: cmd_kept_refl)
next
  case (step y z)
  with step_frame [of e y z] show ?case by (auto intro: cmd_kept_trans)
qed


lemma callbacks_frame:
  "callback\<^sup>*\<^sup>* s s' \<Longrightarrow> cfg s' = cfg s \<and> robot_cmd s' = robot_cmd s \<and> mode s' = mode s"
proof (induction rule: rtranclp_induct)
  case base
  then show ?case by simp
next
  case (step y z)
  with callback_frame [of y z] show ?case by simp
qed

lemma run_init_frame:
  "run_init s = Some s' \<Longrightarrow> cfg s' = cfg s \<and> robot_cmd s' = robot_cmd s"
  by (auto simp: run_init_def bind_eq_Some_conv Let_def)

subsection \<open>The mode\<close>

text \<open>
  C8. No transition leaves WALK: from a state in WALK mode, every state that ticks and
  callbacks lead to is in WALK mode.
\<close>

theorem walk_is_absorbing:
  assumes "mode s = WALK" "(step e)\<^sup>*\<^sup>* s s'"
  shows "mode s' = WALK"
  using assms(2,1)
proof (induction rule: rtranclp_induct)
  case base
  then show ?case by simp
next
  case (step y z)
  with step_frame [of e y z] show ?case by simp
qed


subsection \<open>STAND mode\<close>


lemma load_init_joint_angles_SomeD:
  "load_init_joint_angles m ns = Some as \<Longrightarrow> length as = length ns \<and> (\<forall>n\<in>set ns. m n \<noteq> None)"
  by (induction ns arbitrary: as) (auto simp: bind_eq_Some_conv)

lemma init_controller_SomeD:
  assumes "init_controller c = Some s"
  shows "cfg s = c" "mode s = STAND" "stand_percent s = 0"
    "\<forall>n\<in>set (joint_names c). default_joint_angle c n \<noteq> None"
    "length (init_joint_angles s) = length (joint_names c)"
    "robot_cmd s = \<lparr>cmd_mode = replicate (length (joint_names c)) 0, cmd_q = replicate (length (joint_names c)) 0,
       cmd_dq = replicate (length (joint_names c)) 0, cmd_tau = replicate (length (joint_names c)) 0,
       cmd_Kp = replicate (length (joint_names c)) (stiffness c),
       cmd_Kd = replicate (length (joint_names c)) (damping c)\<rparr>"
    "base_ang_vel_queue s = []" "projected_gravity_queue s = []" "joint_positions_queue s = []"
    "joint_velocities_queue s = []" "actions_queue s = []" "scaled_commands_queue s = []"
    "gait_phase_queue s = []" "gait_command_queue s = []"
  using assms load_init_joint_angles_SomeD [of "default_joint_angle c" "joint_names c"]
  by (auto simp: init_controller_def bind_eq_Some_conv Let_def)

lemma stand_joints_Some:
  assumes "stand_ready c s" "list_all (\<lambda>j. j < length (joint_names c)) js"
  shows "\<exists>s'. stand_joints s js = Some s'"
  using assms
proof (induction js arbitrary: s)
  case Nil
  then show ?case by simp
next
  case (Cons j js)
  let ?n = "length (joint_names c)"
  from Cons.prems have j: "j < ?n" and js: "list_all (\<lambda>j. j < ?n) js" by simp_all
  from Cons.prems(1) have c: "cfg s = c" and n: "5 \<le> ?n"
    and d: "length (default_joint_angles s) = ?n" and q: "length (cmd_q (robot_cmd s)) = ?n"
    and names: "list_all (\<lambda>n. default_joint_angle c n \<noteq> None) (joint_names c)"
    by (simp_all add: stand_ready_def)
  from names j obtain a where a: "default_joint_angle c (joint_names c ! j) = Some a"
    by (auto simp: list_all_length)
  define v where "v = default_joint_angles s ! j * (1 - stand_percent s) + a * stand_percent s"
  define cmd where "cmd = (robot_cmd s)\<lparr>cmd_q := (cmd_q (robot_cmd s))[toPhysical j := v]\<rparr>"
  have tp: "toPhysical j < length (cmd_q (robot_cmd s))" using n j q by (simp add: toPhysical_less)
  then have w: "set_joint_command_aligned (robot_cmd s) j v = Some cmd"
    by (simp add: set_joint_command_aligned_toPhysical set_cmd_q_def list_set_def cmd_def)
  have "stand_ready c (s\<lparr>robot_cmd := cmd\<rparr>)"
    using Cons.prems(1) by (simp add: stand_ready_def cmd_def)
  from Cons.IH [OF this js] obtain s' where "stand_joints (s\<lparr>robot_cmd := cmd\<rparr>) js = Some s'" by blast
  then have "stand_joints s (j # js) = Some s'"
    using j d c a w by (simp add: list_get_def v_def)
  then show ?case by blast
qed

lemma stand_ready_cmd_q:
  "stand_ready c s \<Longrightarrow> length qs = length (cmd_q (robot_cmd s)) \<Longrightarrow>
     stand_ready c (s\<lparr>robot_cmd := (robot_cmd s)\<lparr>cmd_q := qs\<rparr>\<rparr>)"
  by (simp add: stand_ready_def)

lemma update_stand_step:
  assumes "stand_ready c s" "mode s = STAND" "stand_percent s < 1"
    "stand_duration c * loop_frequency c \<noteq> 0"
  shows "\<exists>s'. update e s = Some s' \<and> stand_ready c s' \<and> mode s' = STAND \<and>
     stand_percent s' = stand_percent s + 1 / (stand_duration c * loop_frequency c) \<and>
     loop_count s' = loop_count s + 1"
proof -
  from assms(1) have c: "cfg s = c" by (simp add: stand_ready_def)
  have "list_all (\<lambda>j. j < length (joint_names c)) [0..<length (joint_names c)]"
    by (simp add: list_all_iff)
  from stand_joints_Some [OF assms(1) this] obtain s1 where
    s1: "stand_joints s [0..<length (joint_names c)] = Some s1" by blast
  from stand_joints_frame [OF s1] obtain qs where
    f: "s1 = s\<lparr>robot_cmd := (robot_cmd s)\<lparr>cmd_q := qs\<rparr>\<rparr>" "length qs = length (cmd_q (robot_cmd s))"
    by blast
  define s' where "s' = s1\<lparr>stand_percent := stand_percent s1 + 1 / (stand_duration c * loop_frequency c),
    loop_count := loop_count s1 + 1\<rparr>"
  have "update e s = Some s'"
    using assms(2-4) s1 c f by (simp add: update_def handle_stand_mode_def py_div_def s'_def)
  moreover have "stand_ready c s'"
    using stand_ready_cmd_q [OF assms(1) f(2)] by (simp add: s'_def f(1) stand_ready_def)
  ultimately show ?thesis using assms(2) by (auto simp: s'_def f(1))
qed

lemma update_stand_done:
  assumes "mode s = STAND" "\<not> stand_percent s < 1"
  shows "update e s = Some (s\<lparr>mode := WALK, loop_count := loop_count s + 1\<rparr>)"
  using assms by (simp add: update_def handle_stand_mode_def)

lemma ticks_Suc_right: "ticks e (Suc n) s = ticks e n s \<bind> update e"
proof (induction n arbitrary: s)
  case 0
  show ?case by (cases "update e s") simp_all
next
  case (Suc n)
  show ?case
  proof (cases "update e s")
    case None
    then show ?thesis by simp
  next
    case (Some s1)
    have "ticks e (Suc (Suc n)) s = ticks e (Suc n) s1" using Some by simp
    also have "\<dots> = ticks e n s1 \<bind> update e" by (rule Suc.IH)
    also have "\<dots> = ticks e (Suc n) s \<bind> update e" using Some by simp
    finally show ?thesis .
  qed
qed

lemma run_init_stand_ready:
  assumes "init_controller c = Some s0" "5 \<le> length (joint_names c)"
    "stand_duration c * loop_frequency c \<noteq> 0"
  shows "\<exists>s1. run_init s0 = Some s1 \<and> stand_ready c s1 \<and> mode s1 = STAND \<and> loop_count s1 = 0 \<and>
     stand_percent s1 = 1 / (stand_duration c * loop_frequency c)"
  using assms init_controller_SomeD(1,3,4,6) [OF assms(1)]
  by (simp add: run_init_def py_div_def Let_def stand_ready_def list_all_iff)

lemma stand_ticks:
  assumes "stand_ready c s1" "mode s1 = STAND" "stand_percent s1 = 1 / 1000"
    "stand_duration c = 2" "loop_frequency c = 500" "n < 1000"
  shows "\<exists>s. ticks e n s1 = Some s \<and> stand_ready c s \<and> mode s = STAND \<and>
     stand_percent s = (real n + 1) / 1000 \<and> loop_count s = loop_count s1 + int n"
  using assms(6)
proof (induction n)
  case 0
  with assms show ?case by simp
next
  case (Suc n)
  then obtain s where s: "ticks e n s1 = Some s" "stand_ready c s" "mode s = STAND"
    "stand_percent s = (real n + 1) / 1000" "loop_count s = loop_count s1 + int n" by auto
  from Suc.prems s(4) have lt: "stand_percent s < 1" by simp
  have nz: "stand_duration c * loop_frequency c \<noteq> 0" using assms(4,5) by simp
  from update_stand_step [OF s(2,3) lt nz, of e] obtain s' where
    "update e s = Some s'" "stand_ready c s'" "mode s' = STAND"
    "stand_percent s' = stand_percent s + 1 / (stand_duration c * loop_frequency c)"
    "loop_count s' = loop_count s + 1" by blast
  with s assms(4,5) show ?case
    unfolding ticks_Suc_right by (auto simp: add_divide_distrib)
qed


text \<open>
  C9. With a stand duration of 2 s at 500 Hz, \<^verbatim>\<open>run\<close> sets \<open>stand_percent\<close> to 1/1000
  before its loop; after \<open>n\<close> ticks, \<open>n < 1000\<close>, the mode is STAND and
  \<open>stand_percent\<close> is \<open>(n + 1) / 1000\<close>, so the thousandth increment brings it to 1;
  after exactly 1000 ticks the mode is WALK, with \<open>stand_percent = 1\<close>.
\<close>

theorem stand_takes_1000_ticks:
  assumes "init_controller c = Some s0" "stand_duration c = 2" "loop_frequency c = 500"
    "5 \<le> length (joint_names c)"
  shows "\<exists>s1. run_init s0 = Some s1 \<and> stand_percent s1 = 1 / 1000 \<and>
     (\<forall>n<1000. \<exists>s. ticks e n s1 = Some s \<and> mode s = STAND \<and> stand_percent s = (real n + 1) / 1000) \<and>
     (\<exists>s. ticks e 1000 s1 = Some s \<and> mode s = WALK \<and> stand_percent s = 1)"
proof -
  have nz: "stand_duration c * loop_frequency c \<noteq> 0" using assms(2,3) by simp
  from run_init_stand_ready [OF assms(1,4) nz] obtain s1 where
    s1: "run_init s0 = Some s1" "stand_ready c s1" "mode s1 = STAND"
    "stand_percent s1 = 1 / 1000" using assms(2,3) by auto
  have a: "\<forall>n<1000. \<exists>s. ticks e n s1 = Some s \<and> mode s = STAND \<and> stand_percent s = (real n + 1) / 1000"
    using stand_ticks [OF s1(2-4) assms(2,3), of _ e] by blast
  from stand_ticks [OF s1(2-4) assms(2,3), of 999 e] obtain s where
    s: "ticks e 999 s1 = Some s" "mode s = STAND" "stand_percent s = 1" by auto
  have "ticks e (Suc 999) s1 = Some (s\<lparr>mode := WALK, loop_count := loop_count s + 1\<rparr>)"
    unfolding ticks_Suc_right using s update_stand_done [of s e] by simp
  then have "\<exists>s. ticks e 1000 s1 = Some s \<and> mode s = WALK \<and> stand_percent s = 1"
    using s(3) by simp
  with s1(1,4) a show ?thesis by blast
qed


subsection \<open>Concrete runs\<close>


lemma upt6: "[0..<6] = [0, 1, 2, 3, 4, 5]"
  by (simp add: upt_rec)

lemma example_walk_tick:
  "update example_ext example_walk_state = Some (example_walk_state\<lparr>
     robot_cmd := (robot_cmd example_walk_state)\<lparr>cmd_q := [- 1 / 3, 0, 0, 0, 0, 0]\<rparr>,
     robot_state_tmp := \<lparr>rs_tau = [0, 0, 0, 0, 0, 0], rs_q = [- 1, 0, 0, 0, 0, 0], rs_dq = [0, 0, 0, 0, 0, 0]\<rparr>,
     actions := [- 2 / 3, 0, 0, 0, 0, 0], last_actions := [- 2 / 3, 0, 0, 0, 0, 0], loop_count := 1002\<rparr>)"
  by (simp add: update_def handle_walk_mode_def example_walk_state_def example_cfg_def
    align_robot_state_Some py_mod_def upt6 list_get_def list_set_def action_min_def action_max_def
    clip_action_def np_div_def set_joint_command_aligned_def set_cmd_q_def Let_def)

theorem walk_is_absorbing_witness:
  "mode example_walk_state = WALK \<and>
   (\<exists>s'. update example_ext example_walk_state = Some s' \<and> (step example_ext)\<^sup>*\<^sup>* example_walk_state s' \<and>
      loop_count s' = 1002 \<and> mode s' = WALK)"
proof -
  have m: "mode example_walk_state = WALK" by (simp add: example_walk_state_def)
  obtain s' where s': "update example_ext example_walk_state = Some s'" "loop_count s' = 1002"
    using example_walk_tick by simp
  then have st: "(step example_ext)\<^sup>*\<^sup>* example_walk_state s'"
    by (intro r_into_rtranclp step.tick)
  from walk_is_absorbing [OF m st] m s' st show ?thesis by blast
qed

lemma ticks_running: "running e c s \<Longrightarrow> ticks e n s = Some s' \<Longrightarrow> running e c s'"
proof (induction n arbitrary: s)
  case 0
  then show ?case by simp
next
  case (Suc n)
  then obtain s1 where "update e s = Some s1" "ticks e n s1 = Some s'"
    by (auto simp: bind_eq_Some_conv)
  with Suc show ?case by (blast intro: running.next_step step.tick)
qed

lemma example_init: "\<exists>s0. init_controller example_cfg = Some s0"
  by (simp add: init_controller_def example_cfg_def example_joint_names_def Let_def)

lemma example_cfg_stand:
  "stand_duration example_cfg = 2" "loop_frequency example_cfg = 500" "5 \<le> length (joint_names example_cfg)"
  by (simp_all add: example_cfg_def example_joint_names_def)

theorem stand_takes_1000_ticks_witness:
  "\<exists>s0 s1. init_controller example_cfg = Some s0 \<and> stand_duration example_cfg = 2 \<and>
     loop_frequency example_cfg = 500 \<and> 5 \<le> length (joint_names example_cfg) \<and>
     run_init s0 = Some s1 \<and> stand_percent s1 = 1 / 1000 \<and>
     (\<exists>s. ticks example_ext 3 s1 = Some s \<and> mode s = STAND \<and> stand_percent s = 4 / 1000) \<and>
     (\<exists>s. ticks example_ext 999 s1 = Some s \<and> mode s = STAND \<and> stand_percent s = 1) \<and>
     (\<exists>s. ticks example_ext 1000 s1 = Some s \<and> mode s = WALK \<and> stand_percent s = 1)"
proof -
  obtain s0 where s0: "init_controller example_cfg = Some s0" using example_init by blast
  from stand_takes_1000_ticks [OF s0 example_cfg_stand, of example_ext] obtain s1 where
    s1: "run_init s0 = Some s1" "stand_percent s1 = 1 / 1000"
    and a: "\<forall>n<1000. \<exists>s. ticks example_ext n s1 = Some s \<and> mode s = STAND \<and> stand_percent s = (real n + 1) / 1000"
    and b: "\<exists>s. ticks example_ext 1000 s1 = Some s \<and> mode s = WALK \<and> stand_percent s = 1"
    by blast
  from a [rule_format, of 3] have a3: "\<exists>s. ticks example_ext 3 s1 = Some s \<and> mode s = STAND \<and> stand_percent s = 4 / 1000"
    by simp
  from a [rule_format, of 999] have a999: "\<exists>s. ticks example_ext 999 s1 = Some s \<and> mode s = STAND \<and> stand_percent s = 1"
    by simp
  from s0 s1 a3 a999 b example_cfg_stand show ?thesis by blast
qed


subsection \<open>The published command\<close>

text \<open>
  C10. In every state of a run the fields \<open>mode\<close>, \<open>dq\<close> and \<open>tau\<close> of the command
  are zero for every joint and \<open>Kp\<close>, \<open>Kd\<close> hold the configured stiffness and damping, as
  \<^verbatim>\<open>__init__\<close> set them; a tick, in STAND or in WALK mode, changes entries of \<open>q\<close> only.
\<close>

theorem command_only_q_changes:
  assumes "running e c s"
  shows "cmd_mode (robot_cmd s) = replicate (length (joint_names c)) 0 \<and>
     cmd_dq (robot_cmd s) = replicate (length (joint_names c)) 0 \<and>
     cmd_tau (robot_cmd s) = replicate (length (joint_names c)) 0 \<and>
     cmd_Kp (robot_cmd s) = replicate (length (joint_names c)) (stiffness c) \<and>
     cmd_Kd (robot_cmd s) = replicate (length (joint_names c)) (damping c) \<and>
     (\<forall>s'. update e s = Some s' \<longrightarrow> cmd_kept (robot_cmd s) (robot_cmd s'))"
proof -
  have "cmd_mode (robot_cmd s) = replicate (length (joint_names c)) 0 \<and>
     cmd_dq (robot_cmd s) = replicate (length (joint_names c)) 0 \<and>
     cmd_tau (robot_cmd s) = replicate (length (joint_names c)) 0 \<and>
     cmd_Kp (robot_cmd s) = replicate (length (joint_names c)) (stiffness c) \<and>
     cmd_Kd (robot_cmd s) = replicate (length (joint_names c)) (damping c)"
    using assms
  proof (induction rule: running.induct)
    case (start s0 s1 s)
    from callbacks_frame [OF start(2)] run_init_frame [OF start(3)] init_controller_SomeD(6) [OF start(1)]
    show ?case by simp
  next
    case (next_step s s')
    from step_frame [OF next_step(2)] next_step.IH show ?case
      by (auto simp: cmd_kept_def)
  qed
  moreover have "\<forall>s'. update e s = Some s' \<longrightarrow> cmd_kept (robot_cmd s) (robot_cmd s')"
    using update_frame by blast
  ultimately show ?thesis by blast
qed

theorem command_only_q_changes_witness:
  "\<exists>s s'. running example_ext example_cfg s \<and> update example_ext s = Some s' \<and> mode s' = WALK \<and>
     running example_ext example_cfg s' \<and>
     cmd_mode (robot_cmd s') = [0, 0, 0, 0, 0, 0] \<and> cmd_dq (robot_cmd s') = [0, 0, 0, 0, 0, 0] \<and>
     cmd_tau (robot_cmd s') = [0, 0, 0, 0, 0, 0] \<and> cmd_Kp (robot_cmd s') = [30, 30, 30, 30, 30, 30] \<and>
     cmd_Kd (robot_cmd s') = [1, 1, 1, 1, 1, 1] \<and> cmd_kept (robot_cmd s) (robot_cmd s')"
proof -
  obtain s0 where s0: "init_controller example_cfg = Some s0" using example_init by blast
  have nz: "stand_duration example_cfg * loop_frequency example_cfg \<noteq> 0"
    by (simp add: example_cfg_stand)
  from run_init_stand_ready [OF s0 example_cfg_stand(3) nz] obtain s1 where
    s1: "run_init s0 = Some s1" "stand_ready example_cfg s1" "mode s1 = STAND"
    "stand_percent s1 = 1 / 1000" by (auto simp: example_cfg_stand)
  have r1: "running example_ext example_cfg s1"
    using s0 s1(1) by (blast intro: running.start)
  from stand_ticks [OF s1(2-4) example_cfg_stand(1,2), of 999 example_ext] obtain s where
    s: "ticks example_ext 999 s1 = Some s" "mode s = STAND" "stand_percent s = 1" by auto
  have r: "running example_ext example_cfg s" using ticks_running [OF r1 s(1)] .
  define s' where "s' = s\<lparr>mode := WALK, loop_count := loop_count s + 1\<rparr>"
  have u: "update example_ext s = Some s'" using update_stand_done [of s example_ext] s by (simp add: s'_def)
  have r': "running example_ext example_cfg s'" using r u by (blast intro: running.next_step step.tick)
  have six: "replicate (length (joint_names example_cfg)) x = [x, x, x, x, x, x]" for x :: real
    by (simp add: example_cfg_def example_joint_names_def numeral_eq_Suc)
  have g: "stiffness example_cfg = 30" "damping example_cfg = 1" by (simp_all add: example_cfg_def)
  have f: "cmd_mode (robot_cmd s') = [0, 0, 0, 0, 0, 0] \<and> cmd_dq (robot_cmd s') = [0, 0, 0, 0, 0, 0] \<and>
     cmd_tau (robot_cmd s') = [0, 0, 0, 0, 0, 0] \<and> cmd_Kp (robot_cmd s') = [30, 30, 30, 30, 30, 30] \<and>
     cmd_Kd (robot_cmd s') = [1, 1, 1, 1, 1, 1]"
    using command_only_q_changes [OF r'] by (simp only: six g)
  have k: "cmd_kept (robot_cmd s) (robot_cmd s')" using command_only_q_changes [OF r] u by blast
  have m: "mode s' = WALK" by (simp add: s'_def)
  from r u m r' f k show ?thesis by blast
qed


subsection \<open>The history buffers\<close>


lemma eight: "replicate 8 k = [k, k, k, k, k, k, k, k]"
  by (simp add: numeral_eq_Suc)

lemma deque_append_length:
  "length d \<le> n \<Longrightarrow> length (deque_append n d x) = min n (Suc (length d))"
  by (auto simp: deque_append_def Let_def)

lemma deque_append_replicate:
  "k \<le> n \<Longrightarrow> deque_append n (replicate k v) v = replicate (min n (Suc k)) v"
proof -
  assume "k \<le> n"
  have "replicate k v @ [v] = v # replicate k v" by (simp add: replicate_append_same)
  then show ?thesis using \<open>k \<le> n\<close>
    by (auto simp: deque_append_def Let_def min_def)
qed

lemma queues_append_sample:
  "queues (append_sample s x) =
     map2 (deque_append (observations_history_length (cfg s))) (queues s) (sample_values x)"
  by (simp add: queues_def append_sample_def sample_values_def Let_def)

lemma lengths_append_sample:
  assumes "map length (queues s) = replicate 8 k" "k \<le> observations_history_length (cfg s)"
  shows "map length (queues (append_sample s x)) = replicate 8 (min (observations_history_length (cfg s)) (Suc k))"
  using assms
  by (simp add: eight queues_def append_sample_def Let_def deque_append_length)

lemma replicated_append_sample:
  assumes "queues s = map (replicate k) (sample_values x)" "k \<le> observations_history_length (cfg s)"
  shows "queues (append_sample s x) = map (replicate (min (observations_history_length (cfg s)) (Suc k))) (sample_values x)"
  using assms
  by (simp add: queues_def append_sample_def sample_values_def Let_def deque_append_replicate)

lemma lengths_fill_history:
  "map length (queues s) = replicate 8 k \<Longrightarrow> k \<le> observations_history_length (cfg s) \<Longrightarrow>
     map length (queues (fill_history s x)) = replicate 8 (observations_history_length (cfg s))
     \<and> cfg (fill_history s x) = cfg s"
proof (induction s x arbitrary: k rule: fill_history.induct)
  case (1 s x)
  from "1.prems"(1) have len: "length (base_ang_vel_queue s) = k" by (simp add: eight queues_def)
  show ?case
  proof (cases "k < observations_history_length (cfg s)")
    case True
    then have f: "fill_history s x = fill_history (append_sample s x) x"
      using len by (subst fill_history.simps) simp
    have "map length (queues (append_sample s x)) = replicate 8 (Suc k)"
      using lengths_append_sample [OF "1.prems", of x] True by (simp add: min_def)
    moreover have "Suc k \<le> observations_history_length (cfg (append_sample s x))" using True by simp
    ultimately show ?thesis using "1.IH" [of "Suc k"] True len f by simp
  next
    case False
    then have "fill_history s x = s" using len by (subst fill_history.simps) simp
    with False "1.prems" show ?thesis by simp
  qed
qed

lemma replicated_fill_history:
  "queues s = map (replicate k) (sample_values x) \<Longrightarrow> k \<le> observations_history_length (cfg s) \<Longrightarrow>
     queues (fill_history s x) = map (replicate (observations_history_length (cfg s))) (sample_values x)"
proof (induction s x arbitrary: k rule: fill_history.induct)
  case (1 s x)
  from "1.prems"(1) have len: "length (base_ang_vel_queue s) = k"
    by (simp add: queues_def sample_values_def)
  show ?case
  proof (cases "k < observations_history_length (cfg s)")
    case True
    then have f: "fill_history s x = fill_history (append_sample s x) x"
      using len by (subst fill_history.simps) simp
    have "queues (append_sample s x) = map (replicate (Suc k)) (sample_values x)"
      using replicated_append_sample [OF "1.prems"] True by (simp add: min_absorb2)
    moreover have "Suc k \<le> observations_history_length (cfg (append_sample s x))" using True by simp
    ultimately show ?thesis using "1.IH" [of "Suc k"] True len f by simp
  next
    case False
    then have "fill_history s x = s" using len by (subst fill_history.simps) simp
    with False "1.prems" show ?thesis by simp
  qed
qed

lemma compute_observation_SomeD:
  assumes "compute_observation e s = Some s'"
  shows "\<exists>x h lat. current_sample e s = Some x \<and>
     history_obs (append_sample (fill_history s x) x) = Some h \<and>
     encoder_run e (np_clip h (- clip_observations (cfg s)) (clip_observations (cfg s))) = Some lat \<and>
     s' = (append_sample (fill_history s x) x)\<lparr>observations := h @ lat\<rparr>"
proof -
  have c: "cfg (fill_history s x) = cfg s" for x
    using fill_history_frame [of s x] by auto
  from assms show ?thesis
    by (auto simp: compute_observation_def bind_eq_Some_conv Let_def c)
qed

lemma compute_observation_lengths:
  assumes "compute_observation e s = Some s'" "map length (queues s) = replicate 8 k"
    "k \<le> observations_history_length (cfg s)"
  shows "map length (queues s') = replicate 8 (observations_history_length (cfg s))"
proof -
  from compute_observation_SomeD [OF assms(1)] obtain x obs where
    s': "s' = (append_sample (fill_history s x) x)\<lparr>observations := obs\<rparr>" by blast
  from lengths_fill_history [OF assms(2,3), of x]
  have "map length (queues (append_sample (fill_history s x) x)) = replicate 8 (observations_history_length (cfg s))"
    using lengths_append_sample [of "fill_history s x" "observations_history_length (cfg s)" x] by simp
  then show ?thesis by (simp add: s' queues_def)
qed

lemma compute_observation_first:
  assumes "compute_observation e s = Some s'" "map length (queues s) = replicate 8 0"
  shows "\<exists>x. current_sample e s = Some x \<and>
     queues s' = map (replicate (observations_history_length (cfg s))) (sample_values x)"
proof -
  from compute_observation_SomeD [OF assms(1)] obtain x obs where
    x: "current_sample e s = Some x" and s': "s' = (append_sample (fill_history s x) x)\<lparr>observations := obs\<rparr>"
    by blast
  from assms(2) have "queues s = map (replicate 0) (sample_values x)"
    by (simp add: eight queues_def sample_values_def)
  from replicated_fill_history [OF this]
  have f: "queues (fill_history s x) = map (replicate (observations_history_length (cfg s))) (sample_values x)"
    by simp
  have c: "cfg (fill_history s x) = cfg s" using fill_history_frame [of s x] by auto
  from replicated_append_sample [OF f [folded c]]
  have "queues (append_sample (fill_history s x) x) = map (replicate (observations_history_length (cfg s))) (sample_values x)"
    by (simp add: c)
  with x show ?thesis by (auto simp: s' queues_def)
qed


subsection \<open>WALK ticks\<close>


lemma list_get_SomeD: "list_get xs i = Some v \<Longrightarrow> i < length xs \<and> v = xs ! i"
  by (auto simp: list_get_def split: if_splits)

lemma list_set_SomeD: "list_set xs i v = Some ys \<Longrightarrow> i < length xs \<and> ys = xs[i := v]"
  by (auto simp: list_set_def split: if_splits)

lemma py_mod_SomeD: "py_mod a b = Some r \<Longrightarrow> b \<noteq> 0 \<and> r = a mod b"
  by (auto simp: py_mod_def split: if_splits)

lemma walk_joints_effect:
  assumes "walk_joints s jp jv js = Some s'" "distinct js"
  shows "(\<forall>i\<in>set js. \<exists>lo hi. i < length jp \<and> i < length (actions s) \<and>
        action_min (cfg s) (jp ! i) (init_joint_angles s ! i) (jv ! i) = Some lo \<and>
        action_max (cfg s) (jp ! i) (init_joint_angles s ! i) (jv ! i) = Some hi \<and>
        clip_action (cfg s) lo hi (actions s ! i) = Some (actions s' ! i) \<and>
        cmd_q (robot_cmd s') ! toPhysical i = actions s' ! i * action_scale_pos (cfg s) + init_joint_angles s ! i \<and>
        last_actions s' ! i = actions s' ! i)
     \<and> (\<forall>i. i \<notin> set js \<longrightarrow> actions s' ! i = actions s ! i \<and> last_actions s' ! i = last_actions s ! i)
     \<and> (\<forall>p. p \<notin> toPhysical ` set js \<longrightarrow> cmd_q (robot_cmd s') ! p = cmd_q (robot_cmd s) ! p)"
  using assms
proof (induction js arbitrary: s)
  case Nil
  then show ?case by simp
next
  case (Cons j js)
  from Cons.prems(1) obtain p q0 v lo hi a a' acts cmd last where
    p: "list_get jp j = Some p" and q0: "list_get (init_joint_angles s) j = Some q0"
    and v: "list_get jv j = Some v"
    and lo: "action_min (cfg s) p q0 v = Some lo" and hi: "action_max (cfg s) p q0 v = Some hi"
    and a: "list_get (actions s) j = Some a" and a': "clip_action (cfg s) lo hi a = Some a'"
    and acts: "list_set (actions s) j a' = Some acts"
    and cmd: "set_joint_command_aligned (robot_cmd s) j (a' * action_scale_pos (cfg s) + q0) = Some cmd"
    and last: "list_set (last_actions s) j a' = Some last"
    and r: "walk_joints (s\<lparr>actions := acts, robot_cmd := cmd, last_actions := last\<rparr>) jp jv js = Some s'"
    by (auto simp: bind_eq_Some_conv Let_def)
  let ?s1 = "s\<lparr>actions := acts, robot_cmd := cmd, last_actions := last\<rparr>"
  from Cons.prems(2) have j: "j \<notin> set js" and d: "distinct js" by simp_all
  note IH = Cons.IH [OF r d]
  from list_get_SomeD [OF p] list_get_SomeD [OF q0] list_get_SomeD [OF v] list_get_SomeD [OF a]
  have vals: "j < length jp" "p = jp ! j" "q0 = init_joint_angles s ! j" "v = jv ! j"
    "j < length (actions s)" "a = actions s ! j" by simp_all
  from list_set_SomeD [OF acts] list_set_SomeD [OF last] set_joint_command_aligned_frame [OF cmd]
  have upd: "acts = (actions s)[j := a']" "j < length (last_actions s)" "last = (last_actions s)[j := a']"
    "cmd = (robot_cmd s)\<lparr>cmd_q := (cmd_q (robot_cmd s))[toPhysical j := a' * action_scale_pos (cfg s) + q0]\<rparr>"
    "toPhysical j < length (cmd_q (robot_cmd s))" by simp_all
  have tj: "toPhysical j \<notin> toPhysical ` set js" using j toPhysical_inj by blast
  have at_j: "actions s' ! j = a'" "last_actions s' ! j = a'"
    "cmd_q (robot_cmd s') ! toPhysical j = a' * action_scale_pos (cfg s) + q0"
    using IH j tj vals(5) upd by simp_all
  have head: "\<exists>lo hi. j < length jp \<and> j < length (actions s) \<and>
        action_min (cfg s) (jp ! j) (init_joint_angles s ! j) (jv ! j) = Some lo \<and>
        action_max (cfg s) (jp ! j) (init_joint_angles s ! j) (jv ! j) = Some hi \<and>
        clip_action (cfg s) lo hi (actions s ! j) = Some (actions s' ! j) \<and>
        cmd_q (robot_cmd s') ! toPhysical j = actions s' ! j * action_scale_pos (cfg s) + init_joint_angles s ! j \<and>
        last_actions s' ! j = actions s' ! j"
    using lo hi a' vals at_j by auto
  have tail: "\<exists>lo hi. i < length jp \<and> i < length (actions s) \<and>
        action_min (cfg s) (jp ! i) (init_joint_angles s ! i) (jv ! i) = Some lo \<and>
        action_max (cfg s) (jp ! i) (init_joint_angles s ! i) (jv ! i) = Some hi \<and>
        clip_action (cfg s) lo hi (actions s ! i) = Some (actions s' ! i) \<and>
        cmd_q (robot_cmd s') ! toPhysical i = actions s' ! i * action_scale_pos (cfg s) + init_joint_angles s ! i \<and>
        last_actions s' ! i = actions s' ! i" if "i \<in> set js" for i
  proof -
    from that j have "i \<noteq> j" by auto
    with IH [THEN conjunct1, rule_format, OF that] show ?thesis by (simp add: upd)
  qed
  have rest: "actions s' ! i = actions s ! i \<and> last_actions s' ! i = last_actions s ! i"
    if "i \<notin> set (j # js)" for i
    using IH that by (simp add: upd)
  have slots: "cmd_q (robot_cmd s') ! p = cmd_q (robot_cmd s) ! p" if "p \<notin> toPhysical ` set (j # js)" for p
    using IH that by (simp add: upd)
  from head tail rest slots show ?case by auto
qed

lemma handle_walk_mode_skip:
  assumes "handle_walk_mode e s = Some s'" "loop_count s mod decimation (cfg s) \<noteq> 0"
  shows "\<exists>tmp. align_robot_state (robot_state s) = Some tmp \<and>
     walk_joints (s\<lparr>robot_state_tmp := tmp, imu_data_tmp := imu_data s\<rparr>) (rs_q tmp) (rs_dq tmp)
       [0..<length (rs_q tmp)] = Some s'"
proof -
  from assms(1) obtain tmp and r :: int where
    t: "align_robot_state (robot_state s) = Some tmp" and r: "py_mod (loop_count s) (decimation (cfg s)) = Some r"
    and w: "(if r = 0 then do {
            s \<leftarrow> compute_observation e (s\<lparr>robot_state_tmp := tmp, imu_data_tmp := imu_data s\<rparr>);
            s \<leftarrow> compute_actions e s;
            Some (s\<lparr>actions := np_clip (actions s) (- clip_actions (cfg s)) (clip_actions (cfg s))\<rparr>)
          } else Some (s\<lparr>robot_state_tmp := tmp, imu_data_tmp := imu_data s\<rparr>))
        \<bind> (\<lambda>s. walk_joints s (rs_q (robot_state_tmp s)) (rs_dq (robot_state_tmp s))
              [0..<length (rs_q (robot_state_tmp s))]) = Some s'"
    by (auto simp: handle_walk_mode_def bind_eq_Some_conv Let_def)
  from py_mod_SomeD [OF r] assms(2) have "r \<noteq> 0" by simp
  with w t show ?thesis by simp
qed

lemma handle_walk_mode_infer:
  assumes "handle_walk_mode e s = Some s'" "loop_count s mod decimation (cfg s) = 0"
  shows "\<exists>tmp a b. align_robot_state (robot_state s) = Some tmp \<and>
     compute_observation e (s\<lparr>robot_state_tmp := tmp, imu_data_tmp := imu_data s\<rparr>) = Some a \<and>
     compute_actions e a = Some b \<and>
     walk_joints (b\<lparr>actions := np_clip (actions b) (- clip_actions (cfg b)) (clip_actions (cfg b))\<rparr>)
       (rs_q tmp) (rs_dq tmp) [0..<length (rs_q tmp)] = Some s'"
proof -
  from assms(1) obtain tmp and r :: int where
    t: "align_robot_state (robot_state s) = Some tmp" and r: "py_mod (loop_count s) (decimation (cfg s)) = Some r"
    and w: "(if r = 0 then do {
            s \<leftarrow> compute_observation e (s\<lparr>robot_state_tmp := tmp, imu_data_tmp := imu_data s\<rparr>);
            s \<leftarrow> compute_actions e s;
            Some (s\<lparr>actions := np_clip (actions s) (- clip_actions (cfg s)) (clip_actions (cfg s))\<rparr>)
          } else Some (s\<lparr>robot_state_tmp := tmp, imu_data_tmp := imu_data s\<rparr>))
        \<bind> (\<lambda>s. walk_joints s (rs_q (robot_state_tmp s)) (rs_dq (robot_state_tmp s))
              [0..<length (rs_q (robot_state_tmp s))]) = Some s'"
    by (auto simp: handle_walk_mode_def bind_eq_Some_conv Let_def)
  from py_mod_SomeD [OF r] assms(2) have "r = 0" by simp
  with w obtain a b where a: "compute_observation e (s\<lparr>robot_state_tmp := tmp, imu_data_tmp := imu_data s\<rparr>) = Some a"
    and b: "compute_actions e a = Some b"
    and w': "walk_joints (b\<lparr>actions := np_clip (actions b) (- clip_actions (cfg b)) (clip_actions (cfg b))\<rparr>)
       (rs_q (robot_state_tmp b)) (rs_dq (robot_state_tmp b)) [0..<length (rs_q (robot_state_tmp b))] = Some s'"
    by (auto simp: bind_eq_Some_conv)
  from compute_observation_frame [OF a] b have "robot_state_tmp b = tmp"
    by (auto simp: compute_actions_def bind_eq_Some_conv)
  with t a b w' show ?thesis by auto
qed


lemmas tick_defs = update_def handle_walk_mode_def example_walk_state_def example_cfg_def example_ext_def
    align_robot_state_Some py_mod_def upt6 list_get_def list_set_def action_min_def action_max_def
    clip_action_def np_div_def set_joint_command_aligned_def set_cmd_q_def Let_def
    compute_observation_def current_sample_def compute_gait_phase_def compute_actions_def history_obs_def
    np_flatten_def append_sample_def deque_append_def fill_history.simps np_clip_def np_sub_def
    np_scale_def diag3_dot_def py_div_def

lemma example_fast_tick:
  "\<exists>s'. update example_ext example_fast_state = Some s' \<and>
     observations s' = [0, 0, 0, 0, 0, 0, 0, 0, - 1, 0, 0, - 1, 0, 0, 0, 0, 0, 0, 0, 0, 0, 0, 0,
    0, 200, 0, 0, 0, 0, 0, 200, 0, 0, 0, 0, 0, 0, 0, 0, 0, 0, 0, 0, 0, 0, 0,
    0, 0, 0, 0, 0, 0, 0, 0, 0, 1, 0, 1, 2, 1 / 2, 1 / 2, 2, 1 / 2, 1 / 2, 0]"
  by (simp add: tick_defs example_fast_state_def example_inference_state_def)

lemma example_inference_tick:
  "\<exists>s'. update example_ext example_inference_state = Some s' \<and> actions s' = [1, 0, 0, 0, 0, 0] \<and>
     mode s' = WALK \<and> loop_count s' = 1001 \<and>
     (\<exists>s''. update example_ext (robot_state_callback s' (robot_state example_walk_state)) = Some s'' \<and>
        actions s'' = [- 2 / 3, 0, 0, 0, 0, 0])"
  by (simp add: tick_defs example_inference_state_def robot_state_callback_def)

lemma clip_action_within:
  assumes "clip_action c lo hi a = Some a'" "lo / action_scale_pos c \<le> a" "a \<le> hi / action_scale_pos c"
  shows "a' = a"
  using assms by (auto simp: clip_action_def np_div_def bind_eq_Some_conv split: if_splits)

lemma update_walk_SomeD:
  assumes "mode s = WALK" "update e s = Some s'"
  shows "\<exists>s1. handle_walk_mode e s = Some s1 \<and> s' = s1\<lparr>loop_count := loop_count s1 + 1\<rparr>"
  using assms by (auto simp: update_def bind_eq_Some_conv)

lemma update_stand_SomeD:
  assumes "mode s = STAND" "update e s = Some s'"
  shows "\<exists>s1. handle_stand_mode s = Some s1 \<and> s' = s1\<lparr>loop_count := loop_count s1 + 1\<rparr>"
  using assms by (auto simp: update_def bind_eq_Some_conv)


text \<open>
  C3, as amended. On a WALK tick whose loop count is not a multiple of the decimation no
  inference runs: the observation and the history buffers stay as they are. The stored
  action of every joint is replaced by its clamp to the torque bounds of that tick's
  measured position and velocity, so it stays the same when it lies within these bounds,
  and the position command of the joint is computed anew from the clamped action.
  Actions beyond the joints stay as they are.
\<close>

theorem stale_action_reclamped:
  assumes "mode s = WALK" "loop_count s mod decimation (cfg s) \<noteq> 0" "update e s = Some s'"
  shows "\<exists>tmp. align_robot_state (robot_state s) = Some tmp \<and>
     observations s' = observations s \<and> queues s' = queues s \<and>
     (\<forall>i<length (rs_q tmp). \<exists>lo hi.
        action_min (cfg s) (rs_q tmp ! i) (init_joint_angles s ! i) (rs_dq tmp ! i) = Some lo \<and>
        action_max (cfg s) (rs_q tmp ! i) (init_joint_angles s ! i) (rs_dq tmp ! i) = Some hi \<and>
        clip_action (cfg s) lo hi (actions s ! i) = Some (actions s' ! i) \<and>
        (lo / action_scale_pos (cfg s) \<le> actions s ! i \<and> actions s ! i \<le> hi / action_scale_pos (cfg s)
           \<longrightarrow> actions s' ! i = actions s ! i) \<and>
        cmd_q (robot_cmd s') ! toPhysical i
          = actions s' ! i * action_scale_pos (cfg s) + init_joint_angles s ! i) \<and>
     (\<forall>i. length (rs_q tmp) \<le> i \<longrightarrow> actions s' ! i = actions s ! i)"
proof -
  from update_walk_SomeD [OF assms(1,3)] obtain s1 where
    h: "handle_walk_mode e s = Some s1" and s': "s' = s1\<lparr>loop_count := loop_count s1 + 1\<rparr>" by blast
  from handle_walk_mode_skip [OF h assms(2)] obtain tmp where
    t: "align_robot_state (robot_state s) = Some tmp"
    and w: "walk_joints (s\<lparr>robot_state_tmp := tmp, imu_data_tmp := imu_data s\<rparr>) (rs_q tmp) (rs_dq tmp)
       [0..<length (rs_q tmp)] = Some s1" by blast
  let ?s0 = "s\<lparr>robot_state_tmp := tmp, imu_data_tmp := imu_data s\<rparr>"
  from walk_joints_frame [OF w] have fr: "observations s1 = observations s" "queues s1 = queues s"
    by (auto simp: queues_def)
  note eff = walk_joints_effect [OF w distinct_upt]
  have joint: "\<exists>lo hi.
        action_min (cfg s) (rs_q tmp ! i) (init_joint_angles s ! i) (rs_dq tmp ! i) = Some lo \<and>
        action_max (cfg s) (rs_q tmp ! i) (init_joint_angles s ! i) (rs_dq tmp ! i) = Some hi \<and>
        clip_action (cfg s) lo hi (actions s ! i) = Some (actions s' ! i) \<and>
        (lo / action_scale_pos (cfg s) \<le> actions s ! i \<and> actions s ! i \<le> hi / action_scale_pos (cfg s)
           \<longrightarrow> actions s' ! i = actions s ! i) \<and>
        cmd_q (robot_cmd s') ! toPhysical i
          = actions s' ! i * action_scale_pos (cfg s) + init_joint_angles s ! i"
    if "i < length (rs_q tmp)" for i
  proof -
    from that have "i \<in> set [0..<length (rs_q tmp)]" by simp
    from eff [THEN conjunct1, rule_format, OF this] obtain lo hi where
      "action_min (cfg s) (rs_q tmp ! i) (init_joint_angles s ! i) (rs_dq tmp ! i) = Some lo"
      "action_max (cfg s) (rs_q tmp ! i) (init_joint_angles s ! i) (rs_dq tmp ! i) = Some hi"
      "clip_action (cfg s) lo hi (actions s ! i) = Some (actions s1 ! i)"
      "cmd_q (robot_cmd s1) ! toPhysical i = actions s1 ! i * action_scale_pos (cfg s) + init_joint_angles s ! i"
      by auto
    with clip_action_within [of "cfg s" lo hi "actions s ! i" "actions s1 ! i"] show ?thesis
      by (auto simp: s')
  qed
  have rest: "actions s' ! i = actions s ! i" if "length (rs_q tmp) \<le> i" for i
    using eff [THEN conjunct2, THEN conjunct1, rule_format, of i] that by (simp add: s')
  from t fr joint rest show ?thesis by (auto simp: s' queues_def)
qed

theorem stale_action_reclamped_witness:
  "mode example_walk_state = WALK \<and>
   loop_count example_walk_state mod decimation (cfg example_walk_state) \<noteq> 0 \<and>
   (\<exists>s' tmp. update example_ext example_walk_state = Some s' \<and>
      align_robot_state (robot_state example_walk_state) = Some tmp \<and>
      observations s' = observations example_walk_state \<and> queues s' = queues example_walk_state \<and>
      clip_action example_cfg (- 5 / 3) (- 1 / 3) 1 = Some (actions s' ! 0) \<and>
      actions s' ! 0 = - 2 / 3 \<and> cmd_q (robot_cmd s') ! 0 = - 1 / 3)"
proof -
  have m: "mode example_walk_state = WALK"
    and d: "loop_count example_walk_state mod decimation (cfg example_walk_state) \<noteq> 0"
    by (simp_all add: example_walk_state_def example_cfg_def)
  obtain s' where u: "update example_ext example_walk_state = Some s'"
    and a: "actions s' = [- 2 / 3, 0, 0, 0, 0, 0]" "cmd_q (robot_cmd s') = [- 1 / 3, 0, 0, 0, 0, 0]"
    using example_walk_tick by simp
  from stale_action_reclamped [OF m d u] obtain tmp where
    t: "align_robot_state (robot_state example_walk_state) = Some tmp"
    and o: "observations s' = observations example_walk_state" "queues s' = queues example_walk_state"
    by blast
  have "clip_action example_cfg (- 5 / 3) (- 1 / 3) 1 = Some (actions s' ! 0)"
    by (simp add: a clip_action_def np_div_def example_cfg_def)
  with m d u t o a show ?thesis by auto
qed


text \<open>
  The stored action is not held between inference ticks: the inference tick 1000 stores
  the action 1 for joint 0; the measured position of the joint moves to \<open>-1\<close>; tick 1001,
  no inference tick at decimation 4, stores \<open>-2/3\<close>.
\<close>

theorem stale_action_not_held:
  "mode example_inference_state = WALK \<and>
   (\<exists>s1 s2. update example_ext example_inference_state = Some s1 \<and> actions s1 = [1, 0, 0, 0, 0, 0] \<and>
      mode (robot_state_callback s1 (robot_state example_walk_state)) = WALK \<and>
      loop_count (robot_state_callback s1 (robot_state example_walk_state)) = 1001 \<and>
      decimation (cfg (robot_state_callback s1 (robot_state example_walk_state))) = 4 \<and>
      actions (robot_state_callback s1 (robot_state example_walk_state)) = [1, 0, 0, 0, 0, 0] \<and>
      update example_ext (robot_state_callback s1 (robot_state example_walk_state)) = Some s2 \<and>
      actions s2 = [- 2 / 3, 0, 0, 0, 0, 0])"
  by (simp add: tick_defs example_inference_state_def robot_state_callback_def)


subsection \<open>The observation\<close>

text \<open>
  C2 at a concrete inference tick. With joint 0 at 4000 rad/s and the velocity scale
  1/20 the history holds 200, beyond the bound 100 of \<open>clip_observations\<close>; the
  observation that \<^verbatim>\<open>compute_observation\<close> stores holds 200 as well: the encoder
  is given the clipped history, the observation is built from the history as it is.
\<close>

theorem observation_history_not_clipped:
  "clip_observations (cfg example_fast_state) = 100 \<and>
   (\<exists>s'. update example_ext example_fast_state = Some s' \<and>
     observations s' = [0, 0, 0, 0, 0, 0, 0, 0, - 1, 0, 0, - 1, 0, 0, 0, 0, 0, 0, 0, 0, 0, 0, 0,
       0, 200, 0, 0, 0, 0, 0, 200, 0, 0, 0, 0, 0, 0, 0, 0, 0, 0, 0, 0, 0, 0, 0,
       0, 0, 0, 0, 0, 0, 0, 0, 0, 1, 0, 1, 2, 1 / 2, 1 / 2, 2, 1 / 2, 1 / 2, 0] \<and>
     observations s' ! 24 = 200)"
  by (simp add: tick_defs example_fast_state_def example_inference_state_def)


subsection \<open>The history buffers along a run\<close>


lemma running_cfg: "running e c s \<Longrightarrow> cfg s = c"
proof (induction rule: running.induct)
  case (start s0 s1 s)
  from callbacks_frame [OF start(2)] run_init_frame [OF start(3)] init_controller_SomeD(1) [OF start(1)]
  show ?case by simp
next
  case (next_step s s')
  from step_frame [OF next_step(2)] next_step.IH show ?case by simp
qed

lemma callback_queues: "callback s s' \<Longrightarrow> queues s' = queues s"
  by (cases rule: callback.cases)
    (auto simp: robot_state_callback_def imu_data_callback_def sensor_joy_callback_def
      bind_eq_Some_conv Let_def queues_def)

lemma callbacks_queues: "callback\<^sup>*\<^sup>* s s' \<Longrightarrow> queues s' = queues s"
  by (induction rule: rtranclp_induct) (simp_all add: callback_queues)

lemma run_init_queues: "run_init s = Some s' \<Longrightarrow> queues s' = queues s"
  by (auto simp: run_init_def bind_eq_Some_conv Let_def queues_def)

lemma update_stand_queues:
  assumes "mode s = STAND" "update e s = Some s'"
  shows "queues s' = queues s"
proof -
  from update_stand_SomeD [OF assms] obtain s1 where
    h: "handle_stand_mode s = Some s1" and s': "s' = s1\<lparr>loop_count := loop_count s1 + 1\<rparr>" by blast
  have "queues s1 = queues s"
  proof (cases "stand_percent s < 1")
    case True
    with h obtain s2 inc where "stand_joints s [0..<length (joint_names (cfg s))] = Some s2"
      and "s1 = s2\<lparr>stand_percent := stand_percent s2 + inc\<rparr>"
      by (auto simp: handle_stand_mode_def bind_eq_Some_conv)
    with stand_joints_frame [OF this(1)] show ?thesis by (auto simp: queues_def)
  next
    case False
    with h show ?thesis by (auto simp: handle_stand_mode_def queues_def)
  qed
  then show ?thesis by (simp add: s' queues_def)
qed

lemma update_infer_lengths:
  assumes "mode s = WALK" "loop_count s mod decimation (cfg s) = 0" "update e s = Some s'"
    "map length (queues s) = replicate 8 k" "k \<le> observations_history_length (cfg s)"
  shows "map length (queues s') = replicate 8 (observations_history_length (cfg s))"
proof -
  from update_walk_SomeD [OF assms(1,3)] obtain s1 where
    h: "handle_walk_mode e s = Some s1" and s': "s' = s1\<lparr>loop_count := loop_count s1 + 1\<rparr>" by blast
  from handle_walk_mode_infer [OF h assms(2)] obtain tmp a b where
    a: "compute_observation e (s\<lparr>robot_state_tmp := tmp, imu_data_tmp := imu_data s\<rparr>) = Some a"
    and b: "compute_actions e a = Some b"
    and w: "walk_joints (b\<lparr>actions := np_clip (actions b) (- clip_actions (cfg b)) (clip_actions (cfg b))\<rparr>)
       (rs_q tmp) (rs_dq tmp) [0..<length (rs_q tmp)] = Some s1" by blast
  have "map length (queues a) = replicate 8 (observations_history_length (cfg s))"
    using compute_observation_lengths [OF a, of k] assms(4,5) by (simp add: queues_def)
  moreover have "queues b = queues a" using b by (auto simp: compute_actions_def bind_eq_Some_conv queues_def)
  moreover have "queues s1 = queues b" using walk_joints_frame [OF w] by (auto simp: queues_def)
  ultimately show ?thesis by (simp add: s' queues_def)
qed

lemma update_skip_queues:
  assumes "mode s = WALK" "loop_count s mod decimation (cfg s) \<noteq> 0" "update e s = Some s'"
  shows "queues s' = queues s"
proof -
  from update_walk_SomeD [OF assms(1,3)] obtain s1 where
    h: "handle_walk_mode e s = Some s1" and s': "s' = s1\<lparr>loop_count := loop_count s1 + 1\<rparr>" by blast
  from handle_walk_mode_skip [OF h assms(2)] obtain tmp where
    w: "walk_joints (s\<lparr>robot_state_tmp := tmp, imu_data_tmp := imu_data s\<rparr>) (rs_q tmp) (rs_dq tmp)
       [0..<length (rs_q tmp)] = Some s1" by blast
  from walk_joints_frame [OF w] show ?thesis by (auto simp: s' queues_def)
qed

lemma step_lengths:
  assumes "step e s s'" "map length (queues s) = replicate 8 k"
    "k = 0 \<or> k = observations_history_length (cfg s)"
  shows "map length (queues s') = replicate 8 k \<or>
    map length (queues s') = replicate 8 (observations_history_length (cfg s))"
  using assms(1)
proof (cases rule: step.cases)
  case tick
  show ?thesis
  proof (cases "mode s")
    case STAND
    from update_stand_queues [OF this tick] assms(2) show ?thesis by simp
  next
    case WALK
    show ?thesis
    proof (cases "loop_count s mod decimation (cfg s) = 0")
      case True
      have "k \<le> observations_history_length (cfg s)" using assms(3) by auto
      from update_infer_lengths [OF WALK True tick assms(2) this] show ?thesis by simp
    next
      case False
      from update_skip_queues [OF WALK False tick] assms(2) show ?thesis by simp
    qed
  qed
next
  case cb
  from callback_queues [OF this] assms(2) show ?thesis by simp
qed

lemma steps_full:
  assumes "(step e)\<^sup>*\<^sup>* s s'" "map length (queues s) = replicate 8 (observations_history_length (cfg s))"
  shows "map length (queues s') = replicate 8 (observations_history_length (cfg s)) \<and> cfg s' = cfg s"
  using assms
proof (induction rule: rtranclp_induct)
  case base
  then show ?case by simp
next
  case (step y z)
  then have y: "map length (queues y) = replicate 8 (observations_history_length (cfg y))" "cfg y = cfg s"
    by simp_all
  from step_lengths [OF step(2) y(1)] step_frame [OF step(2)] y(2) show ?case by auto
qed

lemma running_lengths:
  "running e c s \<Longrightarrow> map length (queues s) = replicate 8 0 \<or>
     map length (queues s) = replicate 8 (observations_history_length c)"
proof (induction rule: running.induct)
  case (start s0 s1 s)
  from init_controller_SomeD(7-14) [OF start(1)] have "queues s0 = [[], [], [], [], [], [], [], []]"
    by (simp add: queues_def)
  with callbacks_queues [OF start(2)] run_init_queues [OF start(3)] show ?case
    by (simp add: eight)
next
  case (next_step s s')
  from running_cfg [OF next_step(1)] have c: "cfg s = c" .
  from next_step.IH show ?case
  proof
    assume "map length (queues s) = replicate 8 0"
    from step_lengths [OF next_step(2) this] c show ?thesis by auto
  next
    assume "map length (queues s) = replicate 8 (observations_history_length c)"
    from step_lengths [OF next_step(2), of "observations_history_length c"] this c show ?thesis by auto
  qed
qed


text \<open>
  C7. In a run every one of the eight history buffers is empty, as long as
  \<^verbatim>\<open>compute_observation\<close> has not run, or holds exactly \<open>history_length\<close> entries. After
  a tick on which \<^verbatim>\<open>compute_observation\<close> runs (WALK mode, loop count a multiple of the
  decimation) every buffer holds exactly \<open>history_length\<close> entries, and every later tick
  and callback keeps this count. On the first run the buffers are filled with the
  current sample: it is appended until the buffers are full and once more, which
  evicts the oldest copy.
\<close>

theorem history_buffers_full:
  assumes "running e c s"
  shows "(map length (queues s) = replicate 8 0 \<or>
       map length (queues s) = replicate 8 (observations_history_length c)) \<and>
     (\<forall>s'. mode s = WALK \<and> loop_count s mod decimation c = 0 \<and> update e s = Some s' \<longrightarrow>
        map length (queues s') = replicate 8 (observations_history_length c)) \<and>
     (\<forall>s'. map length (queues s) = replicate 8 (observations_history_length c) \<and> (step e)\<^sup>*\<^sup>* s s' \<longrightarrow>
        map length (queues s') = replicate 8 (observations_history_length c)) \<and>
     (\<forall>t t'. cfg t = c \<and> map length (queues t) = replicate 8 0 \<and> compute_observation e t = Some t' \<longrightarrow>
        (\<exists>x. current_sample e t = Some x \<and>
           queues t' = map (replicate (observations_history_length c)) (sample_values x)))"
proof -
  from running_cfg [OF assms] have c: "cfg s = c" .
  note inv = running_lengths [OF assms]
  have infer: "map length (queues s') = replicate 8 (observations_history_length c)"
    if "mode s = WALK \<and> loop_count s mod decimation c = 0 \<and> update e s = Some s'" for s'
  proof -
    from that have m: "mode s = WALK" and d: "loop_count s mod decimation (cfg s) = 0"
      and u: "update e s = Some s'" by (simp_all add: c)
    from inv show ?thesis
    proof
      assume "map length (queues s) = replicate 8 0"
      from update_infer_lengths [OF m d u this] c show ?thesis by simp
    next
      assume "map length (queues s) = replicate 8 (observations_history_length c)"
      from update_infer_lengths [OF m d u, of "observations_history_length c"] this c show ?thesis by simp
    qed
  qed
  have later: "map length (queues s') = replicate 8 (observations_history_length c)"
    if "map length (queues s) = replicate 8 (observations_history_length c) \<and> (step e)\<^sup>*\<^sup>* s s'" for s'
    using steps_full [of e s s'] that c by simp
  have first: "\<exists>x. current_sample e t = Some x \<and>
           queues t' = map (replicate (observations_history_length c)) (sample_values x)"
    if "cfg t = c \<and> map length (queues t) = replicate 8 0 \<and> compute_observation e t = Some t'" for t t'
    using compute_observation_first [of e t t'] that by auto
  from inv infer later first show ?thesis by blast
qed



lemma replicate6: "replicate 6 x = [x, x, x, x, x, x]"
  by (simp add: numeral_eq_Suc)

lemma quick_run:
  "\<exists>s0 s1 s2 s3. init_controller quick_cfg = Some s0 \<and> run_init s0 = Some s1 \<and>
     update example_ext s1 = Some s2 \<and> mode s2 = WALK \<and> loop_count s2 = 1 \<and>
     queues s2 = [[], [], [], [], [], [], [], []] \<and>
     update example_ext s2 = Some s3 \<and>
     queues s3 = [[[0, 0, 0], [0, 0, 0]], [[0, 0, - 1], [0, 0, - 1]],
       [[0, 0, 0, 0, 0, 0], [0, 0, 0, 0, 0, 0]], [[0, 0, 0, 0, 0, 0], [0, 0, 0, 0, 0, 0]],
       [[0, 0, 0, 0, 0, 0], [0, 0, 0, 0, 0, 0]], [[0, 0, 0], [0, 0, 0]],
       [[0, 1], [0, 1]], [[2, 1 / 2, 1 / 2], [2, 1 / 2, 1 / 2]]]"
  by (simp add: tick_defs init_controller_def run_init_def handle_stand_mode_def quick_cfg_def
    example_joint_names_def queues_def replicate6)

theorem history_buffers_full_witness:
  "\<exists>s s'. running example_ext quick_cfg s \<and> mode s = WALK \<and> loop_count s mod decimation quick_cfg = 0 \<and>
     map length (queues s) = replicate 8 0 \<and>
     update example_ext s = Some s' \<and> (step example_ext)\<^sup>*\<^sup>* s s' \<and>
     map length (queues s') = replicate 8 (observations_history_length quick_cfg) \<and>
     queues s' = [[[0, 0, 0], [0, 0, 0]], [[0, 0, - 1], [0, 0, - 1]],
       [[0, 0, 0, 0, 0, 0], [0, 0, 0, 0, 0, 0]], [[0, 0, 0, 0, 0, 0], [0, 0, 0, 0, 0, 0]],
       [[0, 0, 0, 0, 0, 0], [0, 0, 0, 0, 0, 0]], [[0, 0, 0], [0, 0, 0]],
       [[0, 1], [0, 1]], [[2, 1 / 2, 1 / 2], [2, 1 / 2, 1 / 2]]]"
proof -
  from quick_run obtain s0 s1 s2 s3 where
    s0: "init_controller quick_cfg = Some s0" and s1: "run_init s0 = Some s1"
    and s2: "update example_ext s1 = Some s2" "mode s2 = WALK" "loop_count s2 = 1"
      "queues s2 = [[], [], [], [], [], [], [], []]"
    and s3: "update example_ext s2 = Some s3"
      "queues s3 = [[[0, 0, 0], [0, 0, 0]], [[0, 0, - 1], [0, 0, - 1]],
       [[0, 0, 0, 0, 0, 0], [0, 0, 0, 0, 0, 0]], [[0, 0, 0, 0, 0, 0], [0, 0, 0, 0, 0, 0]],
       [[0, 0, 0, 0, 0, 0], [0, 0, 0, 0, 0, 0]], [[0, 0, 0], [0, 0, 0]],
       [[0, 1], [0, 1]], [[2, 1 / 2, 1 / 2], [2, 1 / 2, 1 / 2]]]"
    by blast
  have "running example_ext quick_cfg s1" using s0 s1 by (blast intro: running.start)
  then have r: "running example_ext quick_cfg s2" using s2(1) by (blast intro: running.next_step step.tick)
  have d: "loop_count s2 mod decimation quick_cfg = 0" by (simp add: s2(3) quick_cfg_def)
  have e: "map length (queues s2) = replicate 8 0" by (simp add: s2(4) eight)
  have st: "(step example_ext)\<^sup>*\<^sup>* s2 s3" using s3(1) by (intro r_into_rtranclp step.tick)
  from history_buffers_full [OF r, THEN conjunct2, THEN conjunct1, rule_format, of s3] s2(2) d s3(1)
  have len: "map length (queues s3) = replicate 8 (observations_history_length quick_cfg)" by simp
  show ?thesis
    by (rule exI [of _ s2], rule exI [of _ s3], intro conjI) (rule r s2(2) d e s3 st len)+
qed


subsection \<open>The clamp and the float32 store\<close>

text \<open>The rounding: the exponent, the error of half a unit in the last place, and known values.\<close>

lemma binary_exponent_bounds:
  assumes "x \<noteq> 0"
  shows "2 powi binary_exponent x \<le> \<bar>x\<bar> \<and> \<bar>x\<bar> < 2 powi (binary_exponent x + 1)"
proof (cases "1 \<le> \<bar>x\<bar>")
  case True
  define n where "n = \<lfloor>\<bar>x\<bar>\<rfloor>"
  have n: "0 < n" "of_int n \<le> \<bar>x\<bar>" "\<bar>x\<bar> < of_int n + 1" using True unfolding n_def by linarith+
  from bitlen_bounds [OF n(1)] have b: "2 ^ nat (bitlen n - 1) \<le> n" "n < 2 ^ nat (bitlen n)" by simp_all
  have pos: "0 < bitlen n" using n(1) by (auto simp: bitlen_alt_def)
  have e: "binary_exponent x = bitlen n - 1" using True by (simp add: binary_exponent_def n_def)
  have "(2::real) powi (bitlen n - 1) = of_int (2 ^ nat (bitlen n - 1))"
    using pos by (simp add: power_int_def)
  also have "\<dots> \<le> of_int n" using b(1) by (simp only: of_int_le_iff)
  finally have lower: "2 powi (bitlen n - 1) \<le> \<bar>x\<bar>" using n(2) by simp
  have "n + 1 \<le> 2 ^ nat (bitlen n)" using b(2) by simp
  then have "(of_int (n + 1) :: real) \<le> of_int (2 ^ nat (bitlen n))" by (simp only: of_int_le_iff)
  moreover have "(2::real) powi (bitlen n - 1 + 1) = of_int (2 ^ nat (bitlen n))"
    using pos by (simp add: power_int_def)
  ultimately have upper: "\<bar>x\<bar> < 2 powi (bitlen n - 1 + 1)" using n(3) by simp
  from lower upper e show ?thesis by simp
next
  case False
  define r where "r = 1 / \<bar>x\<bar>"
  define m where "m = \<lceil>r\<rceil>"
  have x: "0 < \<bar>x\<bar>" "\<bar>x\<bar> < 1" using assms False by simp_all
  then have r1: "1 < r" by (simp add: r_def)
  have m: "r \<le> of_int m" "of_int m - 1 < r" unfolding m_def by linarith+
  then have m1: "0 < m - 1" using r1 by linarith
  define k where "k = bitlen (m - 1)"
  from bitlen_bounds [OF m1] have b: "2 ^ nat (k - 1) \<le> m - 1" "m - 1 < 2 ^ nat k" by (simp_all add: k_def)
  have kpos: "0 < k" using m1 by (auto simp: k_def bitlen_alt_def)
  have e: "binary_exponent x = - k" using False by (simp add: binary_exponent_def k_def m_def r_def)
  have "m \<le> 2 ^ nat k" using b(2) by simp
  then have "(of_int m :: real) \<le> 2 ^ nat k" by simp
  then have rk: "r \<le> 2 ^ nat k" using m(1) by linarith
  have a1: "(of_int (2 ^ nat (k - 1)) :: real) \<le> of_int (m - 1)" using b(1) by (simp only: of_int_le_iff)
  have a2: "(of_int (2 ^ nat (k - 1)) :: real) = 2 ^ nat (k - 1)" by simp
  have a3: "(of_int (m - 1) :: real) = of_int m - 1" by simp
  have rk1: "2 ^ nat (k - 1) < r" using a1 a2 a3 m(2) by linarith
  have xr: "\<bar>x\<bar> = 1 / r" using x by (simp add: r_def)
  have "(2::real) powi (- k) = 1 / 2 ^ nat k" using kpos by (simp add: power_int_def field_simps)
  also have "\<dots> \<le> 1 / r" using rk r1 by (intro divide_left_mono) simp_all
  finally have lower: "2 powi (- k) \<le> \<bar>x\<bar>" by (simp add: xr)
  have "(2::real) powi (- k + 1) = 1 / 2 ^ nat (k - 1)"
  proof -
    have "(2::real) powi (- k + 1) = 2 powi (- (k - 1))" by simp
    also have "\<dots> = inverse (2 powi (k - 1))" by (rule power_int_minus)
    also have "(2::real) powi (k - 1) = 2 ^ nat (k - 1)" using kpos by (simp add: power_int_def)
    finally show ?thesis by (simp add: inverse_eq_divide)
  qed
  moreover have "1 / r < 1 / 2 ^ nat (k - 1)" using rk1 r1 by (intro divide_strict_left_mono) simp_all
  ultimately have upper: "\<bar>x\<bar> < 2 powi (- k + 1)" by (simp add: xr)
  from lower upper e show ?thesis by simp
qed

lemma round_half_even_error: "\<bar>of_int (round_half_even y) - y\<bar> \<le> 1 / 2"
proof -
  have "of_int \<lfloor>y\<rfloor> \<le> y" "y < of_int \<lfloor>y\<rfloor> + 1" by linarith+
  then show ?thesis by (auto simp: round_half_even_def Let_def)
qed

lemma float32_round_error:
  assumes "float32_round x = Some r"
  shows "\<bar>r - x\<bar> \<le> 2 powi (max (binary_exponent x) (- 126) - 23) / 2"
proof (cases "x = 0")
  case True
  with assms show ?thesis by (simp add: float32_round_def)
next
  case False
  define ulp :: real where "ulp = 2 powi (max (binary_exponent x) (- 126) - 23)"
  have u: "0 < ulp" by (simp add: ulp_def)
  from assms False have r: "r = of_int (round_half_even (x / ulp)) * ulp"
    by (auto simp: float32_round_def Let_def ulp_def split: if_splits)
  have "r - x = (of_int (round_half_even (x / ulp)) - x / ulp) * ulp"
    using u by (simp add: r field_simps)
  then have "\<bar>r - x\<bar> = \<bar>of_int (round_half_even (x / ulp)) - x / ulp\<bar> * ulp"
    using u by (simp add: abs_mult)
  also have "\<dots> \<le> 1 / 2 * ulp"
    using round_half_even_error [of "x / ulp"] u by (intro mult_right_mono) simp_all
  finally show ?thesis by (simp add: ulp_def)
qed

lemma float32_round_examples:
  "float32_round (4 / 3) = Some (11184811 / 8388608)"
  "float32_round (1 / 10) = Some (13421773 / 134217728)"
  "float32_round 16777217 = Some 16777216"
  "float32_round 1 = Some 1"
  by code_simp+

text \<open>The bound of the clamp for any clamped action, and what the store adds to it.\<close>

lemma clip_action_torque:
  assumes "0 < stiffness c" "0 \<le> user_torque_limit c" "0 < action_scale_pos c"
    "action_min c q_i q0_i dq_i = Some lo" "action_max c q_i q0_i dq_i = Some hi"
    "clip_action c lo hi a = Some a'"
  shows "\<bar>pd_torque (stiffness c) (damping c) (a' * action_scale_pos c + q0_i) 0 0 q_i dq_i\<bar> \<le> user_torque_limit c"
proof -
  define k where "k = stiffness c"
  define s where "s = action_scale_pos c"
  define T where "T = user_torque_limit c"
  define d where "d = damping c * dq_i"
  have k: "0 < k" and s: "0 < s" and T: "0 \<le> T" using assms(1-3) by (simp_all add: k_def s_def T_def)
  have lo: "lo = q_i - q0_i + (d - T) / k" and hi: "hi = q_i - q0_i + (d + T) / k"
    using assms(4,5) k by (auto simp: action_min_def action_max_def np_div_def k_def d_def T_def split: if_splits)
  have a': "a' = max (lo / s) (min (hi / s) a)"
    using assms(6) s by (auto simp: clip_action_def np_div_def s_def split: if_splits)
  have "(d - T) / k \<le> (d + T) / k" using k T by (simp add: divide_right_mono)
  then have "lo \<le> hi" by (simp add: lo hi)
  then have "lo / s \<le> hi / s" using s by (simp add: divide_right_mono)
  then have "lo / s \<le> a' \<and> a' \<le> hi / s" unfolding a' by (rule clip_between)
  then have b: "lo \<le> a' * s \<and> a' * s \<le> hi" using s by (simp add: pos_divide_le_eq pos_le_divide_eq)
  have "(d - T) / k \<le> a' * s + q0_i - q_i" "a' * s + q0_i - q_i \<le> (d + T) / k"
    using b by (simp_all add: lo hi)
  then have "d - T \<le> k * (a' * s + q0_i - q_i)" "k * (a' * s + q0_i - q_i) \<le> d + T"
    using k by (simp_all add: pos_divide_le_eq pos_le_divide_eq mult.commute)
  then have "\<bar>k * (a' * s + q0_i - q_i) - d\<bar> \<le> T" by linarith
  then show ?thesis by (simp add: pd_torque_def k_def s_def T_def d_def)
qed

lemma clamp_joint_float32_exact:
  assumes "action_min c q_i q0_i dq_i = Some lo" "action_max c q_i q0_i dq_i = Some hi"
    "clip_action c lo hi a = Some a'" "float32_round a' = Some a'"
  shows "clamp_joint_float32 c q_i q0_i dq_i a = Some (a', a' * action_scale_pos c + q0_i)"
  using assms by (simp add: clamp_joint_float32_def)

lemma clamp_joint_float32_torque:
  assumes "0 < stiffness c" "0 \<le> user_torque_limit c" "0 < action_scale_pos c"
    "clamp_joint_float32 c q_i q0_i dq_i a = Some (stored, pos_des)"
  shows "\<exists>lo hi a'. action_min c q_i q0_i dq_i = Some lo \<and> action_max c q_i q0_i dq_i = Some hi \<and>
     clip_action c lo hi a = Some a' \<and> float32_round a' = Some stored \<and>
     pos_des = stored * action_scale_pos c + q0_i \<and>
     \<bar>pd_torque (stiffness c) (damping c) pos_des 0 0 q_i dq_i\<bar>
       \<le> user_torque_limit c + stiffness c * action_scale_pos c * \<bar>stored - a'\<bar>"
proof -
  from assms(4) obtain lo hi a' where
    lo: "action_min c q_i q0_i dq_i = Some lo" and hi: "action_max c q_i q0_i dq_i = Some hi"
    and a': "clip_action c lo hi a = Some a'" and st: "float32_round a' = Some stored"
    and p: "pos_des = stored * action_scale_pos c + q0_i"
    by (auto simp: clamp_joint_float32_def bind_eq_Some_conv Let_def)
  have "pd_torque (stiffness c) (damping c) pos_des 0 0 q_i dq_i
      = pd_torque (stiffness c) (damping c) (a' * action_scale_pos c + q0_i) 0 0 q_i dq_i
        + stiffness c * action_scale_pos c * (stored - a')"
    by (simp add: pd_torque_def p algebra_simps)
  moreover have "\<bar>stiffness c * action_scale_pos c * (stored - a')\<bar>
      = stiffness c * action_scale_pos c * \<bar>stored - a'\<bar>"
    using assms(1,3) by (simp add: abs_mult)
  ultimately have "\<bar>pd_torque (stiffness c) (damping c) pos_des 0 0 q_i dq_i\<bar>
       \<le> user_torque_limit c + stiffness c * action_scale_pos c * \<bar>stored - a'\<bar>"
    using clip_action_torque [OF assms(1-3) lo hi a'] by linarith
  with lo hi a' st p show ?thesis by blast
qed

text \<open>
  With the float32 store the bound fails. The robot at rest at its initial pose,
  stiffness 30, damping 1, torque limit 20, action scale 1/2, and an action 5 from the
  policy: the clamp is 4/3, the array stores \<open>11184811 / 8388608\<close>, the commanded
  position is half of that, and the PD torque is \<open>20 + 5 / 8388608\<close>, above the limit.
\<close>

theorem clamp_torque_exceeds_limit_float32:
  "0 < stiffness example_cfg \<and> 0 \<le> user_torque_limit example_cfg \<and> 0 < action_scale_pos example_cfg \<and>
   clamp_joint_float32 example_cfg 0 0 0 5 = Some (11184811 / 8388608, 11184811 / 16777216) \<and>
   pd_torque (stiffness example_cfg) (damping example_cfg) (11184811 / 16777216) 0 0 0 0 = 20 + 5 / 8388608 \<and>
   user_torque_limit example_cfg = 20 \<and>
   \<not> \<bar>pd_torque (stiffness example_cfg) (damping example_cfg) (11184811 / 16777216) 0 0 0 0\<bar>
       \<le> user_torque_limit example_cfg"
proof -
  have c: "clamp_joint_float32 example_cfg 0 0 0 5 = Some (11184811 / 8388608, 11184811 / 16777216)"
    by code_simp
  have t: "pd_torque (stiffness example_cfg) (damping example_cfg) (11184811 / 16777216) 0 0 0 0 = 20 + 5 / 8388608"
    by (simp add: pd_torque_def example_cfg_def)
  have l: "user_torque_limit example_cfg = 20" "0 < stiffness example_cfg" "0 < action_scale_pos example_cfg"
    by (simp_all add: example_cfg_def)
  from c t l show ?thesis by simp
qed

end
